theory Spec2Isabelle
  imports Complex_Main "HOL-Library.Word"
begin

section \<open>The MRMS GRIB processor: grid normalisation and encoding\<close>

text \<open>
  A shallow embedding of \<^verbatim>\<open>backend/src/workers/grib_processor.py\<close>.

  Numbers. A numpy or Python float is modelled by the value it denotes: not-a-number, one of
  the two infinities, or a real number. Comparisons follow IEEE 754 (every comparison with
  not-a-number is false). The single-precision operations of the program, the cast in
  \<^verbatim>\<open>normalise_values\<close> and the product in \<^verbatim>\<open>encode_values\<close>, round to the nearest
  single-precision value, a tie to the even one. The double-precision subtractions on the
  coordinate axes are taken as exact.

  Arrays. A numpy array of rank one is a list; an array of rank two is its number of columns
  together with the list of its rows. Arrays of any other rank are excluded by the type.
\<close>

subsection \<open>Floats\<close>

datatype float = NaN | NInf | Fin real | PInf

fun isnan :: "float \<Rightarrow> bool" where
  "isnan NaN = True"
| "isnan _ = False"

fun isfinite :: "float \<Rightarrow> bool" where
  "isfinite (Fin _) = True"
| "isfinite _ = False"

text \<open>\<^verbatim>\<open>a < b\<close>, \<^verbatim>\<open>a <= b\<close>, \<^verbatim>\<open>a > b\<close> and \<^verbatim>\<open>a == b\<close> on floats.\<close>

fun fless :: "float \<Rightarrow> float \<Rightarrow> bool" where
  "fless NaN _ = False"
| "fless _ NaN = False"
| "fless _ NInf = False"
| "fless NInf _ = True"
| "fless PInf _ = False"
| "fless (Fin _) PInf = True"
| "fless (Fin a) (Fin b) = (a < b)"

fun feq :: "float \<Rightarrow> float \<Rightarrow> bool" where
  "feq NaN _ = False"
| "feq _ NaN = False"
| "feq a b = (a = b)"

definition fle :: "float \<Rightarrow> float \<Rightarrow> bool" where
  "fle a b = (fless a b \<or> feq a b)"

definition fgreater :: "float \<Rightarrow> float \<Rightarrow> bool" where
  "fgreater a b = fless b a"

text \<open>\<^verbatim>\<open>a - b\<close> and \<^verbatim>\<open>abs(a)\<close>, and the sign used by the product.\<close>

fun fneg :: "float \<Rightarrow> float" where
  "fneg NaN = NaN"
| "fneg NInf = PInf"
| "fneg PInf = NInf"
| "fneg (Fin a) = Fin (- a)"

fun fadd :: "float \<Rightarrow> float \<Rightarrow> float" where
  "fadd NaN _ = NaN"
| "fadd _ NaN = NaN"
| "fadd (Fin a) (Fin b) = Fin (a + b)"
| "fadd (Fin _) b = b"
| "fadd a (Fin _) = a"
| "fadd a b = (if a = b then a else NaN)"

definition fsub :: "float \<Rightarrow> float \<Rightarrow> float" where
  "fsub a b = fadd a (fneg b)"

fun fabs :: "float \<Rightarrow> float" where
  "fabs NaN = NaN"
| "fabs NInf = PInf"
| "fabs PInf = PInf"
| "fabs (Fin a) = Fin \<bar>a\<bar>"

fun fsgn :: "float \<Rightarrow> real" where
  "fsgn NInf = - 1"
| "fsgn PInf = 1"
| "fsgn (Fin a) = sgn a"
| "fsgn NaN = 0"

text \<open>\<^verbatim>\<open>np.rint\<close>: round to the nearest integer, a tie to the even one.\<close>

definition rint_real :: "real \<Rightarrow> int" where
  "rint_real x =
     (let f = \<lfloor>x\<rfloor>; d = x - of_int f
      in if d < 1 / 2 then f else if 1 / 2 < d then f + 1 else if even f then f else f + 1)"

fun rint :: "float \<Rightarrow> float" where
  "rint (Fin x) = Fin (of_int (rint_real x))"
| "rint x = x"

text \<open>
  Rounding to single precision (IEEE 754 binary32, round to nearest, ties to even). The
  exponent of \<open>a\<close> is the greatest \<open>e\<close> between \<open>-126\<close> and \<open>127\<close> with \<open>2 ^ e \<le> a\<close>, and
  \<open>-126\<close> when there is none (the subnormal range); the result is the nearest multiple of
  \<open>2 ^ (e - 23)\<close>, and an infinity when that multiple reaches \<open>2 ^ 128\<close>.
\<close>

fun exponent_search :: "nat \<Rightarrow> real \<Rightarrow> int" where
  "exponent_search 0 a = - 126"
| "exponent_search (Suc n) a =
     (if 2 powi (int n - 125) \<le> a then int n - 125 else exponent_search n a)"

definition float32_exponent :: "real \<Rightarrow> int" where
  "float32_exponent a = exponent_search 253 a"

definition round_float32 :: "real \<Rightarrow> float" where
  "round_float32 x =
     (let q = 2 powi (float32_exponent \<bar>x\<bar> - 23);
          r = of_int (rint_real (x / q)) * q
      in if 2 ^ 128 \<le> \<bar>r\<bar> then (if 0 < x then PInf else NInf) else Fin r)"

text \<open>The product \<^verbatim>\<open>a * b\<close> of two single-precision floats.\<close>

fun fmul32 :: "float \<Rightarrow> float \<Rightarrow> float" where
  "fmul32 NaN _ = NaN"
| "fmul32 _ NaN = NaN"
| "fmul32 (Fin a) (Fin b) = round_float32 (a * b)"
| "fmul32 a b =
     (if fsgn a * fsgn b = 0 then NaN else if 0 < fsgn a * fsgn b then PInf else NInf)"

subsection \<open>Arrays\<close>

datatype error =
    IndexError
  | KeyError string
  | ValueError
  | TypeError
  | RuntimeError string
  | DecoderError string

datatype 'a ndarray = Array1 "'a list" | Array2 nat "'a list list"

text \<open>
  \<open>Array2 c rs\<close> has the shape \<open>(length rs, c)\<close>; it is a numpy array when every row has
  \<open>c\<close> entries.
\<close>

fun wf_array :: "'a ndarray \<Rightarrow> bool" where
  "wf_array (Array1 xs) = True"
| "wf_array (Array2 c rs) = list_all (\<lambda>r. length r = c) rs"

fun ndim :: "'a ndarray \<Rightarrow> nat" where
  "ndim (Array1 _) = 1"
| "ndim (Array2 _ _) = 2"

fun shape :: "'a ndarray \<Rightarrow> nat list" where
  "shape (Array1 xs) = [length xs]"
| "shape (Array2 c rs) = [length rs, c]"

fun ravel :: "'a ndarray \<Rightarrow> 'a list" where
  "ravel (Array1 xs) = xs"
| "ravel (Array2 c rs) = concat rs"

fun map_array :: "('a \<Rightarrow> 'b) \<Rightarrow> 'a ndarray \<Rightarrow> 'b ndarray" where
  "map_array f (Array1 xs) = Array1 (map f xs)"
| "map_array f (Array2 c rs) = Array2 c (map (map f) rs)"

text \<open>Python indexing of one axis of length \<open>n\<close>: a negative index counts from the end.\<close>

definition py_index :: "nat \<Rightarrow> int \<Rightarrow> error + nat" where
  "py_index n i =
     (let j = (if i < 0 then int n + i else i)
      in if 0 \<le> j \<and> j < int n then Inr (nat j) else Inl IndexError)"

text \<open>\<^verbatim>\<open>a[i]\<close> on a rank-one array and \<^verbatim>\<open>a[i, j]\<close> on a rank-two array.\<close>

definition item1 :: "'a list \<Rightarrow> int \<Rightarrow> error + 'a" where
  "item1 xs i = (case py_index (length xs) i of Inl e \<Rightarrow> Inl e | Inr k \<Rightarrow> Inr (xs ! k))"

definition item2 :: "nat \<Rightarrow> 'a list list \<Rightarrow> int \<Rightarrow> int \<Rightarrow> error + 'a" where
  "item2 c rs i j =
     (case py_index (length rs) i of
        Inl e \<Rightarrow> Inl e
      | Inr k \<Rightarrow> (case py_index c j of Inl e \<Rightarrow> Inl e | Inr l \<Rightarrow> Inr (rs ! k ! l)))"

text \<open>\<^verbatim>\<open>np.flipud\<close>: reverse the first axis.\<close>

fun flipud :: "'a ndarray \<Rightarrow> 'a ndarray" where
  "flipud (Array1 xs) = Array1 (rev xs)"
| "flipud (Array2 c rs) = Array2 c (rev rs)"

subsection \<open>Orientation\<close>

text \<open>
  \<^verbatim>\<open>first_lat = float(latitudes[0, 0]) if latitudes.ndim == 2 else float(latitudes[0])\<close>, and
  the same with \<^verbatim>\<open>-1\<close> for the row.
\<close>

fun lat_sample :: "float ndarray \<Rightarrow> int \<Rightarrow> error + float" where
  "lat_sample (Array2 c rs) i = item2 c rs i 0"
| "lat_sample (Array1 xs) i = item1 xs i"

definition ensure_orientation ::
  "float ndarray \<Rightarrow> float ndarray \<Rightarrow> error + (float ndarray \<times> float ndarray \<times> bool)" where
  "ensure_orientation latitudes values =
     (case lat_sample latitudes 0 of
        Inl e \<Rightarrow> Inl e
      | Inr first_lat \<Rightarrow>
          (case lat_sample latitudes (- 1) of
             Inl e \<Rightarrow> Inl e
           | Inr last_lat \<Rightarrow>
               if fless first_lat last_lat
               then Inr (flipud latitudes, flipud values, True)
               else Inr (latitudes, values, False)))"

subsection \<open>Bounds and resolution\<close>

text \<open>
  \<^verbatim>\<open>sorted((a, b))\<close>: the sort of a two-element list tests \<^verbatim>\<open>b < a\<close> once and exchanges
  the two when the test succeeds.
\<close>

definition sorted2 :: "float \<Rightarrow> float \<Rightarrow> float \<times> float" where
  "sorted2 a b = (if fless b a then (b, a) else (a, b))"

text \<open>
  \<^verbatim>\<open>float(longitudes[0, j]) if longitudes.ndim == 2 else float(longitudes[j])\<close>.
\<close>

fun lon_sample :: "float ndarray \<Rightarrow> int \<Rightarrow> error + float" where
  "lon_sample (Array2 c rs) j = item2 c rs 0 j"
| "lon_sample (Array1 xs) j = item1 xs j"

definition extract_bounds ::
  "float ndarray \<Rightarrow> float ndarray \<Rightarrow> error + (float \<times> float \<times> float \<times> float)" where
  "extract_bounds latitudes longitudes =
     (case lat_sample latitudes 0 of
        Inl e \<Rightarrow> Inl e
      | Inr north0 \<Rightarrow>
     (case lat_sample latitudes (- 1) of
        Inl e \<Rightarrow> Inl e
      | Inr south0 \<Rightarrow>
     (case lon_sample longitudes 0 of
        Inl e \<Rightarrow> Inl e
      | Inr west0 \<Rightarrow>
     (case lon_sample longitudes (- 1) of
        Inl e \<Rightarrow> Inl e
      | Inr east0 \<Rightarrow>
          (let (south, north) = sorted2 south0 north0;
               (west, east) = sorted2 west0 east0
           in Inr (south, west, north, east))))))"

definition compute_step :: "float list \<Rightarrow> float" where
  "compute_step values = (if length values < 2 then Fin 0 else fabs (fsub (values ! 1) (values ! 0)))"

text \<open>\<^verbatim>\<open>latitudes[:, 0]\<close> and \<^verbatim>\<open>longitudes[0, :]\<close> for rank two, the array itself for rank one.\<close>

fun lat_vector :: "float ndarray \<Rightarrow> error + float list" where
  "lat_vector (Array2 c rs) =
     (case py_index c 0 of Inl e \<Rightarrow> Inl e | Inr l \<Rightarrow> Inr (map (\<lambda>r. r ! l) rs))"
| "lat_vector (Array1 xs) = Inr xs"

fun lon_vector :: "float ndarray \<Rightarrow> error + float list" where
  "lon_vector (Array2 c rs) =
     (case py_index (length rs) 0 of Inl e \<Rightarrow> Inl e | Inr k \<Rightarrow> Inr (rs ! k))"
| "lon_vector (Array1 xs) = Inr xs"

definition extract_resolution :: "float ndarray \<Rightarrow> float ndarray \<Rightarrow> error + (float \<times> float)" where
  "extract_resolution latitudes longitudes =
     (case lat_vector latitudes of
        Inl e \<Rightarrow> Inl e
      | Inr latv \<Rightarrow>
          (case lon_vector longitudes of
             Inl e \<Rightarrow> Inl e
           | Inr lonv \<Rightarrow> Inr (compute_step latv, compute_step lonv)))"

subsection \<open>Value normalisation\<close>

text \<open>
  \<^verbatim>\<open>astype(np.float32)\<close> rounds a finite value to single precision and keeps not-a-number and
  the infinities.
\<close>

fun astype_float32 :: "float \<Rightarrow> float" where
  "astype_float32 (Fin x) = round_float32 x"
| "astype_float32 x = x"

definition normalise_value :: "float option \<Rightarrow> float \<Rightarrow> float" where
  "normalise_value missing_value x =
     (let x1 = (case missing_value of
                  None \<Rightarrow> x
                | Some m \<Rightarrow> if feq x m then NaN else x);
          x2 = (if fle x1 (Fin (- 100)) then NaN else x1)
      in astype_float32 x2)"

definition normalise_values :: "float ndarray \<Rightarrow> float option \<Rightarrow> float ndarray" where
  "normalise_values values missing_value = map_array (normalise_value missing_value) values"

subsection \<open>Quantisation and encoding\<close>

type_synonym int16 = "16 word"
type_synonym byte = "8 word"

text \<open>
  \<^verbatim>\<open>astype(np.int16)\<close>: the C conversion truncates towards zero. Its result for a value
  outside the range of the type, an infinity or not-a-number is not defined by C and depends
  on the platform; the model takes it from the parameter \<open>oor\<close>.
\<close>

fun astype_int16 :: "(float \<Rightarrow> int16) \<Rightarrow> float \<Rightarrow> int16" where
  "astype_int16 oor (Fin r) =
     (let n = (if 0 \<le> r then \<lfloor>r\<rfloor> else \<lceil>r\<rceil>)
      in if - 32768 \<le> n \<and> n \<le> 32767 then word_of_int n else oor (Fin r))"
| "astype_int16 oor x = oor x"

text \<open>What the conversion gives on x86-64: the low 16 bits of the 32-bit conversion.\<close>

fun oor_x86_64 :: "float \<Rightarrow> int16" where
  "oor_x86_64 (Fin r) =
     (let n = (if 0 \<le> r then \<lfloor>r\<rfloor> else \<lceil>r\<rceil>)
      in if - 2147483648 \<le> n \<and> n \<le> 2147483647 then word_of_int n else 0)"
| "oor_x86_64 x = 0"

definition scale_multiplier :: int where
  "scale_multiplier = 10"

definition missing_sentinel :: int where
  "missing_sentinel = - 32768"

text \<open>
  One cell of \<^verbatim>\<open>np.where(np.isnan(values), missing_sentinel, np.rint(values * scale_multiplier))\<close>
  followed by \<^verbatim>\<open>astype(np.int16)\<close>. The values are single-precision, and so is their product
  with the multiplier.
\<close>

definition encode_value :: "(float \<Rightarrow> int16) \<Rightarrow> float \<Rightarrow> int16" where
  "encode_value oor x =
     astype_int16 oor
       (if isnan x then Fin (of_int missing_sentinel)
        else rint (fmul32 x (Fin (of_int scale_multiplier))))"

text \<open>\<^verbatim>\<open>tobytes\<close>: the cells in row-major order, each as two bytes, the low byte first.\<close>

definition int16_bytes :: "int16 \<Rightarrow> byte list" where
  "int16_bytes w = [ucast w, ucast (drop_bit 8 w)]"

definition tobytes :: "int16 ndarray \<Rightarrow> byte list" where
  "tobytes a = concat (map int16_bytes (ravel a))"

text \<open>Standard base64 (RFC 4648), as \<^verbatim>\<open>base64.b64encode\<close> produces it.\<close>

definition b64_alphabet :: string where
  "b64_alphabet = ''ABCDEFGHIJKLMNOPQRSTUVWXYZabcdefghijklmnopqrstuvwxyz0123456789+/''"

definition b64_char :: "nat \<Rightarrow> char" where
  "b64_char n = b64_alphabet ! n"

fun b64encode :: "byte list \<Rightarrow> string" where
  "b64encode [] = []"
| "b64encode [a] =
     [b64_char (unat a div 4), b64_char (unat a mod 4 * 16), CHR ''='', CHR ''='']"
| "b64encode [a, b] =
     [b64_char (unat a div 4), b64_char (unat a mod 4 * 16 + unat b div 16),
      b64_char (unat b mod 16 * 4), CHR ''='']"
| "b64encode (a # b # c # bs) =
     [b64_char (unat a div 4), b64_char (unat a mod 4 * 16 + unat b div 16),
      b64_char (unat b mod 16 * 4 + unat c div 64), b64_char (unat c mod 64)] @ b64encode bs"

text \<open>
  The inverse reading of the standard, used to say that a string is valid base64: groups of
  four characters of the alphabet, padding only in the last group.
\<close>

fun index_of :: "'a list \<Rightarrow> 'a \<Rightarrow> nat option" where
  "index_of [] y = None"
| "index_of (x # xs) y = (if x = y then Some 0 else map_option Suc (index_of xs y))"

definition b64_value :: "char \<Rightarrow> nat option" where
  "b64_value c = index_of b64_alphabet c"

fun b64decode :: "string \<Rightarrow> byte list option" where
  "b64decode [] = Some []"
| "b64decode (c1 # c2 # c3 # c4 # cs) =
     (case (b64_value c1, b64_value c2) of
        (Some p, Some q) \<Rightarrow>
          if cs = [] \<and> c3 = CHR ''='' \<and> c4 = CHR ''=''
          then Some [of_nat (p * 4 + q div 16)]
          else (case b64_value c3 of
                  Some r \<Rightarrow>
                    if cs = [] \<and> c4 = CHR ''=''
                    then Some [of_nat (p * 4 + q div 16), of_nat (q mod 16 * 16 + r div 4)]
                    else (case b64_value c4 of
                            Some s \<Rightarrow>
                              map_option
                                (\<lambda>bs. [of_nat (p * 4 + q div 16), of_nat (q mod 16 * 16 + r div 4),
                                       of_nat (r mod 4 * 64 + s)] @ bs)
                                (b64decode cs)
                          | None \<Rightarrow> None)
                | None \<Rightarrow> None)
      | _ \<Rightarrow> None)"
| "b64decode _ = None"

record encoding =
  format :: string
  scale :: real
  offset :: real
  missing :: int
  description :: string

definition encode_values :: "(float \<Rightarrow> int16) \<Rightarrow> float ndarray \<Rightarrow> string \<times> encoding" where
  "encode_values oor values =
     (let scaled = map_array (encode_value oor) values;
          encoded_bytes = b64encode (tobytes scaled);
          encoding = \<lparr>format = ''int16'',
                      scale = 1 / of_int scale_multiplier,
                      offset = 0,
                      missing = missing_sentinel,
                      description = ''value = (raw * scale) + offset; missing indicates no data''\<rparr>
      in (encoded_bytes, encoding))"

text \<open>
  The reading of one cell that the descriptor prescribes:
  \<^verbatim>\<open>value = (raw * scale) + offset; missing indicates no data\<close>.
\<close>

definition decode_value :: "encoding \<Rightarrow> int16 \<Rightarrow> float" where
  "decode_value enc raw =
     (if sint raw = missing enc then NaN else Fin (of_int (sint raw) * scale enc + offset enc))"

subsection \<open>Longitudes\<close>

text \<open>
  \<open>numeric\<close> is \<^verbatim>\<open>np.issubdtype(longitudes.dtype, np.number)\<close>.
\<close>

definition wrap_longitudes :: "bool \<Rightarrow> float ndarray \<Rightarrow> float ndarray" where
  "wrap_longitudes numeric longitudes =
     (if numeric
      then map_array (\<lambda>x. if fgreater x (Fin 180) then fsub x (Fin 360) else x) longitudes
      else longitudes)"

subsection \<open>Value range\<close>

text \<open>
  \<^verbatim>\<open>np.nanmin\<close> and \<^verbatim>\<open>np.nanmax\<close> reduce the flattened array with \<^verbatim>\<open>fmin\<close> and
  \<^verbatim>\<open>fmax\<close>, which return the other argument when one is not-a-number; they raise
  \<^verbatim>\<open>ValueError\<close> on an array without elements and return not-a-number when every element
  is not-a-number.
\<close>

definition fmin :: "float \<Rightarrow> float \<Rightarrow> float" where
  "fmin a b = (if isnan a then b else if isnan b then a else if fless b a then b else a)"

definition fmax :: "float \<Rightarrow> float \<Rightarrow> float" where
  "fmax a b = (if isnan a then b else if isnan b then a else if fless a b then b else a)"

definition nanmin :: "float ndarray \<Rightarrow> error + float" where
  "nanmin a = (case ravel a of [] \<Rightarrow> Inl ValueError | x # xs \<Rightarrow> Inr (foldl fmin x xs))"

definition nanmax :: "float ndarray \<Rightarrow> error + float" where
  "nanmax a = (case ravel a of [] \<Rightarrow> Inl ValueError | x # xs \<Rightarrow> Inr (foldl fmax x xs))"

text \<open>
  Lines 183 to 194 of \<^verbatim>\<open>process_grib\<close>: the candidate is not-a-number when the reduction
  raises \<^verbatim>\<open>ValueError\<close>, and the field is \<^verbatim>\<open>None\<close> unless the candidate is finite.
\<close>

definition min_value_of :: "float ndarray \<Rightarrow> float option" where
  "min_value_of values =
     (let min_candidate = (case nanmin values of Inl e \<Rightarrow> NaN | Inr m \<Rightarrow> m)
      in if isfinite min_candidate then Some min_candidate else None)"

definition max_value_of :: "float ndarray \<Rightarrow> float option" where
  "max_value_of values =
     (let max_candidate = (case nanmax values of Inl e \<Rightarrow> NaN | Inr m \<Rightarrow> m)
      in if isfinite max_candidate then Some max_candidate else None)"

subsection \<open>The decoded dataset\<close>

text \<open>
  What the decoder hands over: the data variables in their order, each with its values and the
  two attributes the program reads; the latitude and longitude coordinates, when present, the
  longitude with the answer of \<^verbatim>\<open>np.issubdtype(dtype, np.number)\<close>; and, when a time
  coordinate or variable is present, the outcome of \<^verbatim>\<open>np.datetime_as_string\<close> on its first
  element.
\<close>

record variable =
  var_values :: "float ndarray"
  attr_missing_value :: "float option"
  attr_FillValue :: "float option"

record dataset =
  data_vars :: "(string \<times> variable) list"
  latitude :: "float ndarray option"
  longitude :: "(bool \<times> float ndarray) option"
  time :: "(error + string) option"

definition detect_missing_value :: "variable \<Rightarrow> float option" where
  "detect_missing_value v =
     (case attr_missing_value v of Some m \<Rightarrow> Some m | None \<Rightarrow> attr_FillValue v)"

definition endswith :: "string \<Rightarrow> string \<Rightarrow> bool" where
  "endswith s suffix = (length suffix \<le> length s \<and> drop (length s - length suffix) s = suffix)"

definition format_timestamp :: "dataset \<Rightarrow> error + string option" where
  "format_timestamp ds =
     (case time ds of
        None \<Rightarrow> Inr None
      | Some (Inl e) \<Rightarrow> if e = TypeError \<or> e = ValueError then Inr None else Inl e
      | Some (Inr s) \<Rightarrow> Inr (Some (if endswith s ''Z'' then s else s @ ''Z'')))"

subsection \<open>The orchestrator\<close>

record payload =
  rows :: nat
  cols :: nat
  bounds :: "float list"
  latStep :: float
  lonStep :: float
  timestamp :: "string option"
  minValue :: "float option"
  maxValue :: "float option"
  origin :: string
  dataEncoding :: encoding
  data :: string

text \<open>
  \<^verbatim>\<open>rows, cols = values.shape\<close> raises \<^verbatim>\<open>ValueError\<close> unless the array has rank two.
\<close>

fun unpack_shape :: "'a ndarray \<Rightarrow> error + (nat \<times> nat)" where
  "unpack_shape (Array2 c rs) = Inr (length rs, c)"
| "unpack_shape (Array1 xs) = Inl ValueError"

text \<open>
  \<open>opened\<close> is the outcome of \<^verbatim>\<open>xr.open_dataset\<close>, which is not part of the program:
  the decoded dataset, or the exception the decoder raised.
\<close>

definition process_grib :: "(float \<Rightarrow> int16) \<Rightarrow> error + dataset \<Rightarrow> error + payload" where
  "process_grib oor opened =
     (case opened of
        Inl e \<Rightarrow> Inl e
      | Inr ds \<Rightarrow>
     (case data_vars ds of
        [] \<Rightarrow> Inl (RuntimeError ''No data variables found in GRIB file'')
      | (variable_name, var) # _ \<Rightarrow>
     (case latitude ds of
        None \<Rightarrow> Inl (KeyError ''latitude'')
      | Some latitudes0 \<Rightarrow>
     (case longitude ds of
        None \<Rightarrow> Inl (KeyError ''longitude'')
      | Some (numeric, longitudes0) \<Rightarrow>
     (let longitudes1 = wrap_longitudes numeric longitudes0
      in
     (case ensure_orientation latitudes0 (var_values var) of
        Inl e \<Rightarrow> Inl e
      | Inr (latitudes, raw_values, flipped) \<Rightarrow>
     (let longitudes = (if flipped then flipud longitudes1 else longitudes1);
          values = normalise_values raw_values (detect_missing_value var);
          (encoded_data, encoding) = encode_values oor values
      in
     (case unpack_shape values of
        Inl e \<Rightarrow> Inl e
      | Inr (nrows, ncols) \<Rightarrow>
     (case extract_bounds latitudes longitudes of
        Inl e \<Rightarrow> Inl e
      | Inr (south, west, north, east) \<Rightarrow>
     (case extract_resolution latitudes longitudes of
        Inl e \<Rightarrow> Inl e
      | Inr (lat_step, lon_step) \<Rightarrow>
     (case format_timestamp ds of
        Inl e \<Rightarrow> Inl e
      | Inr ts \<Rightarrow>
          Inr \<lparr>rows = nrows,
               cols = ncols,
               bounds = [south, west, north, east],
               latStep = lat_step,
               lonStep = lon_step,
               timestamp = ts,
               minValue = min_value_of values,
               maxValue = max_value_of values,
               origin = ''upper-left'',
               dataEncoding = encoding,
               data = encoded_data\<rparr>)))))))))))"

subsection \<open>The command line\<close>

text \<open>
  One run of \<^verbatim>\<open>main\<close>: the JSON documents printed on standard output, each given by the
  payload it serialises, and how the process ends: with an exit status, or with the exception
  that nothing caught. Standard error is left out.
\<close>

datatype status = Exit nat | Uncaught error

record run =
  stdout :: "payload list"
  ending :: status

definition main :: "(float \<Rightarrow> int16) \<Rightarrow> bool \<Rightarrow> error + dataset \<Rightarrow> run" where
  "main oor path_exists opened =
     (if \<not> path_exists
      then \<lparr>stdout = [], ending = Exit 2\<rparr>
      else (case process_grib oor opened of
              Inl e \<Rightarrow> \<lparr>stdout = [], ending = Uncaught e\<rparr>
            | Inr p \<Rightarrow> \<lparr>stdout = [p], ending = Exit 0\<rparr>))"

section \<open>Properties\<close>

subsection \<open>Comparisons and corner samples\<close>

lemma fless_irrefl: "\<not> fless a a"
  by (cases a) auto

lemma fless_asym: "fless a b \<Longrightarrow> \<not> fless b a"
  by (cases a; cases b) auto

lemma py_index_first: "py_index n 0 = (if 0 < n then Inr 0 else Inl IndexError)"
  by (simp add: py_index_def)

lemma py_index_last: "py_index n (- 1) = (if 0 < n then Inr (n - 1) else Inl IndexError)"
  by (auto simp: py_index_def Let_def nat_diff_distrib)

lemma item1_first: "item1 xs 0 = (if xs = [] then Inl IndexError else Inr (hd xs))"
  by (simp add: item1_def py_index_first hd_conv_nth)

lemma item1_last: "item1 xs (- 1) = (if xs = [] then Inl IndexError else Inr (last xs))"
  by (simp add: item1_def py_index_last last_conv_nth)

lemma item2_first:
  "item2 c rs 0 0 = (if rs = [] \<or> c = 0 then Inl IndexError else Inr (hd rs ! 0))"
  by (simp add: item2_def py_index_first hd_conv_nth)

lemma item2_last_row:
  "item2 c rs (- 1) 0 = (if rs = [] \<or> c = 0 then Inl IndexError else Inr (last rs ! 0))"
  by (simp add: item2_def py_index_first py_index_last last_conv_nth)

lemmas corner_simps = item1_first item1_last item2_first item2_last_row

lemma lat_sample_flipud:
  "lat_sample (flipud a) 0 = lat_sample a (- 1)" "lat_sample (flipud a) (- 1) = lat_sample a 0"
  by (cases a; simp add: corner_simps hd_rev last_rev)+

subsection \<open>Orientation\<close>

text \<open>
  C5. On a latitude axis with at least one sample, \<open>ensure_orientation\<close> reverses the rows of
  the axis and of the value grid and reports \<open>True\<close> exactly when the first latitude sample is
  strictly less than the last one; otherwise it returns both unchanged and reports \<open>False\<close>.
  For an axis of rank two the two samples are the first elements of the first and of the last
  row. The right-hand sides mention no other sample of the axis, and an axis with a single row
  is never flipped. On an axis without a sample the call raises \<^verbatim>\<open>IndexError\<close>.
\<close>

theorem ensure_orientation_decision:
  "(xs \<noteq> [] \<longrightarrow>
      ensure_orientation (Array1 xs) values =
        (if fless (hd xs) (last xs)
         then Inr (Array1 (rev xs), flipud values, True)
         else Inr (Array1 xs, values, False))) \<and>
   (rs \<noteq> [] \<and> 0 < c \<longrightarrow>
      ensure_orientation (Array2 c rs) values =
        (if fless (hd rs ! 0) (last rs ! 0)
         then Inr (Array2 c (rev rs), flipud values, True)
         else Inr (Array2 c rs, values, False))) \<and>
   ensure_orientation (Array1 [x]) values = Inr (Array1 [x], values, False) \<and>
   (0 < c \<longrightarrow> ensure_orientation (Array2 c [r]) values = Inr (Array2 c [r], values, False)) \<and>
   ensure_orientation (Array1 []) values = Inl IndexError \<and>
   (rs = [] \<or> c = 0 \<longrightarrow> ensure_orientation (Array2 c rs) values = Inl IndexError)"
  by (simp add: ensure_orientation_def corner_simps fless_irrefl)

theorem ensure_orientation_decision_witness:
  "[Fin 10, Fin 15, Fin 20] \<noteq> [] \<and>
   [[Fin 50, Fin 51], [Fin 40, Fin 41]] \<noteq> [] \<and> (0::nat) < 2 \<and>
   ensure_orientation (Array1 [Fin 10, Fin 15, Fin 20])
       (Array2 1 [[Fin 1], [Fin 2], [Fin 3]]) =
     Inr (Array1 [Fin 20, Fin 15, Fin 10], Array2 1 [[Fin 3], [Fin 2], [Fin 1]], True) \<and>
   ensure_orientation (Array2 2 [[Fin 50, Fin 51], [Fin 40, Fin 41]])
       (Array2 1 [[Fin 1], [Fin 2], [Fin 3]]) =
     Inr (Array2 2 [[Fin 50, Fin 51], [Fin 40, Fin 41]], Array2 1 [[Fin 1], [Fin 2], [Fin 3]], False) \<and>
   ensure_orientation (Array2 2 [[Fin 7, Fin 8]]) (Array2 1 [[Fin 1], [Fin 2], [Fin 3]]) =
     Inr (Array2 2 [[Fin 7, Fin 8]], Array2 1 [[Fin 1], [Fin 2], [Fin 3]], False)"
  using ensure_orientation_decision
          [of "[Fin 10, Fin 15, Fin 20]" "Array2 1 [[Fin 1], [Fin 2], [Fin 3]]"
              "[[Fin 50, Fin 51], [Fin 40, Fin 41]]" 2 "Fin 0" "[Fin 7, Fin 8]"]
  by simp

lemma ensure_orientation_fixed:
  assumes "ensure_orientation latitudes values = Inr (latitudes', values', flipped)"
  shows "ensure_orientation latitudes' values' = Inr (latitudes', values', False)"
proof -
  from assms obtain f l where f: "lat_sample latitudes 0 = Inr f"
    and l: "lat_sample latitudes (- 1) = Inr l"
    by (auto simp: ensure_orientation_def split: sum.splits)
  show ?thesis
  proof (cases "fless f l")
    case True
    with assms f l have "latitudes' = flipud latitudes" "values' = flipud values"
      by (simp_all add: ensure_orientation_def)
    moreover from True have "\<not> fless l f" by (rule fless_asym)
    ultimately show ?thesis
      using f l by (simp add: ensure_orientation_def lat_sample_flipud del: lat_sample.simps)
  next
    case False
    with assms f l have "latitudes' = latitudes" "values' = values"
      by (simp_all add: ensure_orientation_def)
    with False f l show ?thesis by (simp add: ensure_orientation_def del: lat_sample.simps)
  qed
qed

text \<open>
  C9. The vertical flip is its own inverse, and whatever \<open>ensure_orientation\<close> returns is a
  fixed point: applied to the axis and the grid it returned, it returns them again and
  reports no flip.
\<close>

theorem orientation_idempotent:
  "flipud (flipud a) = a \<and>
   (ensure_orientation latitudes values = Inr (latitudes', values', flipped) \<longrightarrow>
      ensure_orientation latitudes' values' = Inr (latitudes', values', False))"
  using ensure_orientation_fixed by (cases a) auto

theorem orientation_idempotent_witness:
  "ensure_orientation (Array1 [Fin 10, Fin 20]) (Array2 2 [[Fin 1, Fin 2], [Fin 3, Fin 4]]) =
     Inr (Array1 [Fin 20, Fin 10], Array2 2 [[Fin 3, Fin 4], [Fin 1, Fin 2]], True) \<and>
   ensure_orientation (Array1 [Fin 20, Fin 10]) (Array2 2 [[Fin 3, Fin 4], [Fin 1, Fin 2]]) =
     Inr (Array1 [Fin 20, Fin 10], Array2 2 [[Fin 3, Fin 4], [Fin 1, Fin 2]], False)"
proof -
  have h: "ensure_orientation (Array1 [Fin 10, Fin 20]) (Array2 2 [[Fin 1, Fin 2], [Fin 3, Fin 4]]) =
     Inr (Array1 [Fin 20, Fin 10], Array2 2 [[Fin 3, Fin 4], [Fin 1, Fin 2]], True)"
    by (simp add: ensure_orientation_def corner_simps)
  from orientation_idempotent [THEN conjunct2, rule_format, OF h] h show ?thesis by simp
qed

subsection \<open>Bounds\<close>

lemma fle_total: "\<not> isnan a \<Longrightarrow> \<not> isnan b \<Longrightarrow> \<not> fless b a \<Longrightarrow> fle a b"
  by (cases a; cases b) (auto simp: fle_def)

lemma sorted2_ordered:
  assumes "sorted2 a b = (lo, hi)" "\<not> isnan lo" "\<not> isnan hi"
  shows "fle lo hi"
proof (cases "fless b a")
  case True
  with assms show ?thesis by (simp add: sorted2_def fle_def)
next
  case False
  with assms show ?thesis by (simp add: sorted2_def fle_total)
qed

lemma py_index_less: "py_index n i = Inr k \<Longrightarrow> k < n"
  by (auto simp: py_index_def Let_def split: if_splits)

lemma item1_mem: "item1 xs i = Inr x \<Longrightarrow> x \<in> set xs"
  by (auto simp: item1_def split: sum.splits dest: py_index_less)

lemma item2_mem:
  assumes "item2 c rs i j = Inr x" "list_all (\<lambda>r. length r = c) rs"
  shows "x \<in> set (concat rs)"
proof -
  from assms(1) obtain k l where k: "k < length rs" and l: "l < c" and x: "x = rs ! k ! l"
    by (auto simp: item2_def split: sum.splits dest: py_index_less)
  from k assms(2) have "length (rs ! k) = c" by (simp add: list_all_length)
  with l x have "x \<in> set (rs ! k)" by simp
  with k show ?thesis by auto
qed

lemma lon_sample_mem: "lon_sample a j = Inr x \<Longrightarrow> wf_array a \<Longrightarrow> x \<in> set (ravel a)"
  by (cases a) (auto dest: item1_mem item2_mem)

lemma lat_sample_mem: "lat_sample a j = Inr x \<Longrightarrow> wf_array a \<Longrightarrow> x \<in> set (ravel a)"
  by (cases a) (auto dest: item1_mem item2_mem)

lemma extract_bounds_mem:
  assumes "extract_bounds latitudes longitudes = Inr (south, west, north, east)"
  shows "wf_array longitudes \<Longrightarrow>
           west \<in> set (ravel longitudes) \<and> east \<in> set (ravel longitudes)"
    and "wf_array latitudes \<Longrightarrow>
           south \<in> set (ravel latitudes) \<and> north \<in> set (ravel latitudes)"
proof -
  from assms obtain n0 s0 w0 e0 where n: "lat_sample latitudes 0 = Inr n0"
    and s: "lat_sample latitudes (- 1) = Inr s0" and sn: "sorted2 s0 n0 = (south, north)"
    and w: "lon_sample longitudes 0 = Inr w0"
    and e: "lon_sample longitudes (- 1) = Inr e0" and we: "sorted2 w0 e0 = (west, east)"
    by (auto simp: extract_bounds_def Let_def split: sum.splits prod.splits
             simp del: lat_sample.simps lon_sample.simps)
  show "west \<in> set (ravel longitudes) \<and> east \<in> set (ravel longitudes)" if "wf_array longitudes"
  proof -
    from w e that have "w0 \<in> set (ravel longitudes)" "e0 \<in> set (ravel longitudes)"
      by (auto dest: lon_sample_mem)
    with we show ?thesis by (auto simp: sorted2_def split: if_splits)
  qed
  show "south \<in> set (ravel latitudes) \<and> north \<in> set (ravel latitudes)" if "wf_array latitudes"
  proof -
    from n s that have "n0 \<in> set (ravel latitudes)" "s0 \<in> set (ravel latitudes)"
      by (auto dest: lat_sample_mem)
    with sn show ?thesis by (auto simp: sorted2_def split: if_splits)
  qed
qed

lemma extract_bounds_pairs:
  assumes "extract_bounds latitudes longitudes = Inr (south, west, north, east)"
  shows "(\<not> isnan south \<and> \<not> isnan north \<longrightarrow> fle south north) \<and>
         (\<not> isnan west \<and> \<not> isnan east \<longrightarrow> fle west east)"
  using assms
  by (auto simp: extract_bounds_def Let_def split: sum.splits prod.splits
           intro: sorted2_ordered simp del: lat_sample.simps lon_sample.simps)

text \<open>
  C3. Coordinates are numbers: an axis holds no not-a-number sample. For every pair of such
  axes, of rank one or two and in any direction, the bounds that \<open>extract_bounds\<close> returns
  satisfy \<open>south \<le> north\<close> and \<open>west \<le> east\<close>. More precisely, each of the two orderings holds
  as soon as the two bounds it compares are not not-a-number.
\<close>

theorem extract_bounds_ordered:
  "(wf_array latitudes \<and> wf_array longitudes \<and>
    (\<forall>x \<in> set (ravel latitudes). \<not> isnan x) \<and> (\<forall>x \<in> set (ravel longitudes). \<not> isnan x) \<and>
    extract_bounds latitudes longitudes = Inr (south, west, north, east) \<longrightarrow>
      fle south north \<and> fle west east) \<and>
   (extract_bounds latitudes longitudes = Inr (south, west, north, east) \<longrightarrow>
      (\<not> isnan south \<and> \<not> isnan north \<longrightarrow> fle south north) \<and>
      (\<not> isnan west \<and> \<not> isnan east \<longrightarrow> fle west east))"
proof -
  have 1: "fle south north \<and> fle west east"
    if a: "wf_array latitudes \<and> wf_array longitudes \<and>
      (\<forall>x \<in> set (ravel latitudes). \<not> isnan x) \<and> (\<forall>x \<in> set (ravel longitudes). \<not> isnan x) \<and>
      extract_bounds latitudes longitudes = Inr (south, west, north, east)"
  proof -
    from a have b: "extract_bounds latitudes longitudes = Inr (south, west, north, east)" by simp
    from a extract_bounds_mem [OF b]
    have "\<not> isnan south" "\<not> isnan north" "\<not> isnan west" "\<not> isnan east"
      by blast+
    with extract_bounds_pairs [OF b] show ?thesis by blast
  qed
  have 2: "(\<not> isnan south \<and> \<not> isnan north \<longrightarrow> fle south north) \<and>
      (\<not> isnan west \<and> \<not> isnan east \<longrightarrow> fle west east)"
    if "extract_bounds latitudes longitudes = Inr (south, west, north, east)"
    using that by (rule extract_bounds_pairs)
  from 1 2 show ?thesis by blast
qed

theorem extract_bounds_ordered_witness:
  "wf_array (Array1 [Fin 10, Fin 20]) \<and>
   wf_array (Array2 2 [[Fin 30, Fin (- 40)], [Fin 31, Fin (- 41)]]) \<and>
   extract_bounds (Array1 [Fin 10, Fin 20]) (Array2 2 [[Fin 30, Fin (- 40)], [Fin 31, Fin (- 41)]]) =
     Inr (Fin 10, Fin (- 40), Fin 20, Fin 30) \<and> fle (Fin 10) (Fin 20) \<and> fle (Fin (- 40)) (Fin 30)"
proof -
  have h: "wf_array (Array1 [Fin 10, Fin 20]) \<and>
   wf_array (Array2 2 [[Fin 30, Fin (- 40)], [Fin 31, Fin (- 41)]]) \<and>
   (\<forall>x \<in> set (ravel (Array1 [Fin 10, Fin 20])). \<not> isnan x) \<and>
   (\<forall>x \<in> set (ravel (Array2 2 [[Fin 30, Fin (- 40)], [Fin 31, Fin (- 41)]])). \<not> isnan x) \<and>
   extract_bounds (Array1 [Fin 10, Fin 20]) (Array2 2 [[Fin 30, Fin (- 40)], [Fin 31, Fin (- 41)]]) =
     Inr (Fin 10, Fin (- 40), Fin 20, Fin 30)"
    by (simp add: extract_bounds_def corner_simps sorted2_def item2_def py_index_def)
  from mp [OF conjunct1 [OF extract_bounds_ordered] h] h show ?thesis by simp
qed

subsection \<open>Longitudes\<close>

lemma wrap_value_range:
  assumes "fle (Fin (- 180)) x" "fle x (Fin 540)"
  shows "fle (Fin (- 180)) (if fgreater x (Fin 180) then fsub x (Fin 360) else x) \<and>
         fle (if fgreater x (Fin 180) then fsub x (Fin 360) else x) (Fin 180)"
  using assms by (cases x) (auto simp: fle_def fgreater_def fsub_def)

lemma ravel_map_array: "ravel (map_array f a) = map f (ravel a)"
  by (cases a) (simp_all add: map_concat)

lemma ravel_flipud: "set (ravel (flipud a)) = set (ravel a)"
  by (cases a) auto

lemma wf_map_array: "wf_array (map_array f a) = wf_array a"
  by (cases a) (simp_all add: list_all_length)

lemma wf_flipud: "wf_array (flipud a) = wf_array a"
  by (cases a) (simp_all add: list_all_iff)

text \<open>
  C2, as the code has it. When every value of a numeric longitude axis lies between \<open>-180\<close>
  and \<open>540\<close>, both included, every value that \<open>wrap_longitudes\<close> returns lies between \<open>-180\<close>
  and \<open>180\<close>, both included; and so do the west and east bounds extracted from the
  wrapped axis, flipped or not.
\<close>

theorem wrap_longitudes_range:
  "(\<forall>x \<in> set (ravel longitudes). fle (Fin (- 180)) x \<and> fle x (Fin 540)) \<longrightarrow>
     (\<forall>y \<in> set (ravel (wrap_longitudes True longitudes)). fle (Fin (- 180)) y \<and> fle y (Fin 180)) \<and>
     (wf_array longitudes \<longrightarrow>
        (extract_bounds latitudes (wrap_longitudes True longitudes) = Inr (south, west, north, east) \<or>
         extract_bounds latitudes (flipud (wrap_longitudes True longitudes)) = Inr (south, west, north, east)) \<longrightarrow>
        fle (Fin (- 180)) west \<and> fle west (Fin 180) \<and> fle (Fin (- 180)) east \<and> fle east (Fin 180))"
proof (intro impI)
  assume a: "\<forall>x \<in> set (ravel longitudes). fle (Fin (- 180)) x \<and> fle x (Fin 540)"
  have r: "\<forall>y \<in> set (ravel (wrap_longitudes True longitudes)). fle (Fin (- 180)) y \<and> fle y (Fin 180)"
  proof
    fix y assume "y \<in> set (ravel (wrap_longitudes True longitudes))"
    then obtain x where x: "x \<in> set (ravel longitudes)"
      and y: "y = (if fgreater x (Fin 180) then fsub x (Fin 360) else x)"
      by (auto simp: wrap_longitudes_def ravel_map_array)
    from a x have "fle (Fin (- 180)) x" "fle x (Fin 540)" by auto
    then show "fle (Fin (- 180)) y \<and> fle y (Fin 180)"
      unfolding y by (rule wrap_value_range)
  qed
  have "fle (Fin (- 180)) west \<and> fle west (Fin 180) \<and> fle (Fin (- 180)) east \<and> fle east (Fin 180)"
    if wf: "wf_array longitudes"
      and b: "extract_bounds latitudes (wrap_longitudes True longitudes) = Inr (south, west, north, east) \<or>
         extract_bounds latitudes (flipud (wrap_longitudes True longitudes)) = Inr (south, west, north, east)"
  proof -
    from wf have "wf_array (wrap_longitudes True longitudes)"
      by (simp add: wrap_longitudes_def wf_map_array)
    with b have "west \<in> set (ravel (wrap_longitudes True longitudes)) \<and>
                 east \<in> set (ravel (wrap_longitudes True longitudes))"
      using extract_bounds_mem [of latitudes "wrap_longitudes True longitudes"]
            extract_bounds_mem [of latitudes "flipud (wrap_longitudes True longitudes)"]
      by (auto simp: wf_flipud ravel_flipud)
    with r show ?thesis by blast
  qed
  with r show "(\<forall>y \<in> set (ravel (wrap_longitudes True longitudes)). fle (Fin (- 180)) y \<and> fle y (Fin 180)) \<and>
     (wf_array longitudes \<longrightarrow>
        (extract_bounds latitudes (wrap_longitudes True longitudes) = Inr (south, west, north, east) \<or>
         extract_bounds latitudes (flipud (wrap_longitudes True longitudes)) = Inr (south, west, north, east)) \<longrightarrow>
        fle (Fin (- 180)) west \<and> fle west (Fin 180) \<and> fle (Fin (- 180)) east \<and> fle east (Fin 180))"
    by blast
qed

theorem wrap_longitudes_range_witness:
  "wrap_longitudes True (Array1 [Fin 190, Fin 200]) = Array1 [Fin (- 170), Fin (- 160)] \<and>
   extract_bounds (Array1 [Fin 20, Fin 10]) (flipud (wrap_longitudes True (Array1 [Fin 190, Fin 200]))) =
     Inr (Fin 10, Fin (- 170), Fin 20, Fin (- 160)) \<and>
   fle (Fin (- 180)) (Fin (- 170)) \<and> fle (Fin (- 170)) (Fin 180) \<and>
   fle (Fin (- 180)) (Fin (- 160)) \<and> fle (Fin (- 160)) (Fin 180)"
proof -
  have w: "wrap_longitudes True (Array1 [Fin 190, Fin 200]) = Array1 [Fin (- 170), Fin (- 160)]"
    by (simp add: wrap_longitudes_def fgreater_def fsub_def)
  have h: "\<forall>x \<in> set (ravel (Array1 [Fin 190, Fin 200])). fle (Fin (- 180)) x \<and> fle x (Fin 540)"
    by (simp add: fle_def)
  have b: "extract_bounds (Array1 [Fin 20, Fin 10]) (flipud (wrap_longitudes True (Array1 [Fin 190, Fin 200]))) =
     Inr (Fin 10, Fin (- 170), Fin 20, Fin (- 160))"
    by (simp add: w extract_bounds_def corner_simps sorted2_def)
  have wf: "wf_array (Array1 [Fin 190, Fin 200])" by simp
  from mp [OF wrap_longitudes_range h] have
    "wf_array (Array1 [Fin 190, Fin 200]) \<longrightarrow>
        (extract_bounds (Array1 [Fin 20, Fin 10]) (wrap_longitudes True (Array1 [Fin 190, Fin 200])) = Inr (Fin 10, Fin (- 170), Fin 20, Fin (- 160)) \<or>
         extract_bounds (Array1 [Fin 20, Fin 10]) (flipud (wrap_longitudes True (Array1 [Fin 190, Fin 200]))) = Inr (Fin 10, Fin (- 170), Fin 20, Fin (- 160))) \<longrightarrow>
        fle (Fin (- 180)) (Fin (- 170)) \<and> fle (Fin (- 170)) (Fin 180) \<and> fle (Fin (- 180)) (Fin (- 160)) \<and> fle (Fin (- 160)) (Fin 180)"
    by (rule conjunct2)
  with wf b w show ?thesis by blast
qed

text \<open>
  C2 as stated fails: \<open>180\<close> is not greater than \<open>180\<close> and stays, outside the half-open
  interval; \<open>600\<close> becomes \<open>240\<close>; \<open>-200\<close> stays. The west and east bounds inherit the values.
\<close>

theorem wrap_longitudes_counterexample:
  "wrap_longitudes True (Array1 [Fin (- 200), Fin 180, Fin 600]) =
     Array1 [Fin (- 200), Fin 180, Fin 240] \<and>
   \<not> fle (Fin (- 180)) (Fin (- 200)) \<and> \<not> fless (Fin 180) (Fin 180) \<and> \<not> fless (Fin 240) (Fin 180) \<and>
   extract_bounds (Array1 [Fin 0]) (wrap_longitudes True (Array1 [Fin 180, Fin 600])) =
     Inr (Fin 0, Fin 180, Fin 0, Fin 240)"
  by (simp add: wrap_longitudes_def fgreater_def fsub_def fle_def extract_bounds_def corner_simps
        sorted2_def)

subsection \<open>Resolution\<close>

lemma compute_step_simps:
  "compute_step [] = Fin 0" "compute_step [a] = Fin 0"
  "compute_step (a # b # rest) = fabs (fsub b a)"
  by (simp_all add: compute_step_def)

text \<open>
  C7. The step of a vector is \<open>0.0\<close> when the vector has no sample or one sample, and the
  absolute difference of its first two samples otherwise. \<open>extract_resolution\<close> takes the
  step of the latitude axis, or of its first column when it has rank two, and the step of the
  longitude axis, or of its first row when it has rank two. An axis with a single sample gives
  the step \<open>0.0\<close>; a grid of one row and one column gives \<open>(0.0, 0.0)\<close>.
\<close>

theorem extract_resolution_steps:
  "compute_step [] = Fin 0 \<and> compute_step [a] = Fin 0 \<and>
   compute_step (a # b # rest) = fabs (fsub b a) \<and>
   extract_resolution (Array1 xs) (Array1 ys) = Inr (compute_step xs, compute_step ys) \<and>
   (0 < c \<longrightarrow> extract_resolution (Array2 c rs) (Array1 ys) =
      Inr (compute_step (map (\<lambda>r. r ! 0) rs), compute_step ys)) \<and>
   (rs' \<noteq> [] \<longrightarrow> extract_resolution (Array1 xs) (Array2 c' rs') =
      Inr (compute_step xs, compute_step (hd rs'))) \<and>
   (0 < c \<and> rs' \<noteq> [] \<longrightarrow> extract_resolution (Array2 c rs) (Array2 c' rs') =
      Inr (compute_step (map (\<lambda>r. r ! 0) rs), compute_step (hd rs'))) \<and>
   extract_resolution (Array1 [a]) (Array1 [b]) = Inr (Fin 0, Fin 0) \<and>
   extract_resolution (Array2 1 [[a]]) (Array2 1 [[b]]) = Inr (Fin 0, Fin 0)"
  by (simp add: compute_step_def extract_resolution_def py_index_first hd_conv_nth)

theorem extract_resolution_steps_witness:
  "(0::nat) < 2 \<and> [[Fin 0, Fin 1], [Fin 0, Fin 1]] \<noteq> [] \<and>
   extract_resolution (Array2 2 [[Fin 50, Fin 50], [Fin 49, Fin 49], [Fin 48, Fin 48]])
      (Array2 2 [[Fin (- 100), Fin (- 98)], [Fin (- 100), Fin (- 98)], [Fin (- 100), Fin (- 98)]]) =
     Inr (Fin 1, Fin 2)"
  using extract_resolution_steps
     [where c = 2 and c' = 2
        and rs = "[[Fin 50, Fin 50], [Fin 49, Fin 49], [Fin 48, Fin 48]]"
        and rs' = "[[Fin (- 100), Fin (- 98)], [Fin (- 100), Fin (- 98)], [Fin (- 100), Fin (- 98)]]"]
  by (simp add: compute_step_simps fsub_def)

subsection \<open>Quantisation\<close>

lemma exponent_search_ge: "- 126 \<le> exponent_search n a"
  by (induction n) auto

lemma exponent_search_below:
  "exponent_search n a = - 126 \<or> 2 powi (exponent_search n a) \<le> a"
  by (induction n) auto

lemma exponent_search_max:
  "- 126 \<le> k \<Longrightarrow> k \<le> int n - 126 \<Longrightarrow> 2 powi k \<le> a \<Longrightarrow> k \<le> exponent_search n a"
proof (induction n)
  case 0
  then show ?case by simp
next
  case (Suc n)
  show ?case
  proof (cases "2 powi (int n - 125) \<le> a")
    case True
    with Suc.prems show ?thesis by simp
  next
    case False
    with Suc.prems have "k \<noteq> int n - 125" by auto
    with Suc.prems have "k \<le> int n - 126" by simp
    with Suc False show ?thesis by simp
  qed
qed

lemma float32_exponent_eq:
  assumes "- 126 \<le> k" "k \<le> 127" "2 powi k \<le> a" "a < 2 powi (k + 1)"
  shows "float32_exponent a = k"
proof -
  let ?e = "exponent_search 253 a"
  from assms have 1: "k \<le> ?e" by (intro exponent_search_max) simp_all
  have "?e < k + 1"
  proof (rule ccontr)
    assume "\<not> ?e < k + 1"
    then have k: "k + 1 \<le> ?e" by simp
    then have "?e \<noteq> - 126" using assms(1) by auto
    with exponent_search_below [of 253 a] have "2 powi ?e \<le> a" by auto
    moreover from k have "(2::real) powi (k + 1) \<le> 2 powi ?e"
      by (intro power_int_increasing) simp_all
    ultimately show False using assms(4) by linarith
  qed
  with 1 show ?thesis by (simp add: float32_exponent_def)
qed

lemma float32_exponent_below:
  "float32_exponent a = - 126 \<or> 2 powi (float32_exponent a) \<le> a"
  unfolding float32_exponent_def by (rule exponent_search_below)

lemma float32_exponent_ge:
  "- 126 \<le> k \<Longrightarrow> k \<le> 127 \<Longrightarrow> 2 powi k \<le> a \<Longrightarrow> k \<le> float32_exponent a"
  unfolding float32_exponent_def by (rule exponent_search_max) simp_all

lemma float32_exponent_le:
  assumes "a < 2 powi (k + 1)" "- 126 \<le> k"
  shows "float32_exponent a \<le> k"
proof (rule ccontr)
  assume "\<not> float32_exponent a \<le> k"
  then have k: "k + 1 \<le> float32_exponent a" by simp
  with assms(2) have "float32_exponent a \<noteq> - 126" by auto
  with float32_exponent_below [of a] have "2 powi (float32_exponent a) \<le> a" by auto
  moreover from k have "(2::real) powi (k + 1) \<le> 2 powi (float32_exponent a)"
    by (intro power_int_increasing) simp_all
  ultimately show False using assms(1) by linarith
qed

lemma rint_real_near: "\<bar>of_int (rint_real x) - x\<bar> \<le> 1 / 2"
proof -
  have "of_int \<lfloor>x\<rfloor> \<le> x" "x < of_int \<lfloor>x\<rfloor> + 1" by linarith+
  then show ?thesis by (auto simp: rint_real_def Let_def)
qed

lemma rint_real_of_int: "rint_real (of_int m) = m"
  by (simp add: rint_real_def)

lemma rint_real_zero: "\<bar>x\<bar> < 1 / 2 \<Longrightarrow> rint_real x = 0"
proof -
  assume "\<bar>x\<bar> < 1 / 2"
  with rint_real_near [of x] have "\<bar>(of_int (rint_real x) :: real)\<bar> < 1" by linarith
  then show ?thesis by linarith
qed

lemma round_error:
  assumes "q = 2 powi (float32_exponent \<bar>x\<bar> - 23)"
  shows "\<bar>of_int (rint_real (x / q)) * q - x\<bar> \<le> q / 2"
proof -
  have q: "0 < q" unfolding assms by (simp add: zero_less_power_int)
  have "\<bar>of_int (rint_real (x / q)) * q - x\<bar> = \<bar>of_int (rint_real (x / q)) - x / q\<bar> * q"
    using q by (simp add: abs_mult [symmetric] field_simps)
  also have "\<dots> \<le> 1 / 2 * q"
    using rint_real_near [of "x / q"] q by (intro mult_right_mono) simp_all
  finally show ?thesis by simp
qed

lemma round_float32_int:
  assumes "\<bar>n\<bar> < 2 ^ 24"
  shows "round_float32 (of_int n) = Fin (of_int n)"
proof (cases "n = 0")
  case True
  then show ?thesis by (simp add: round_float32_def rint_real_def Let_def)
next
  case False
  let ?a = "\<bar>of_int n :: real\<bar>"
  let ?e = "float32_exponent ?a"
  from False have "1 \<le> \<bar>n\<bar>" by simp
  then have "(1::real) \<le> of_int \<bar>n\<bar>" by linarith
  then have a1: "1 \<le> ?a" by simp
  then have e0: "0 \<le> ?e" by (intro float32_exponent_ge) simp_all
  from assms have "?a < 2 powi (23 + 1)" by (simp flip: of_int_abs)
  then have e23: "?e \<le> 23" by (rule float32_exponent_le) simp
  define d where "d = nat (23 - ?e)"
  from e23 have ed: "?e - 23 = - int d" by (simp add: d_def)
  have q: "(2::real) powi (?e - 23) = 1 / 2 ^ d"
    unfolding ed by (simp add: power_int_minus_divide)
  have "of_int n / (2::real) powi (?e - 23) = of_int (n * 2 ^ d)"
    unfolding q by simp
  then have r: "of_int (rint_real (of_int n / 2 powi (?e - 23))) * (2::real) powi (?e - 23) = of_int n"
    by (simp only: rint_real_of_int q) simp
  from assms have "\<bar>of_int n :: real\<bar> < 2 ^ 128"
  proof -
    from assms have "?a < 2 ^ 24" by (simp flip: of_int_abs)
    also have "(2::real) ^ 24 < 2 ^ 128" by simp
    finally show ?thesis .
  qed
  then show ?thesis
    unfolding round_float32_def Let_def r by simp
qed

lemma round_float32_product:
  assumes "\<bar>x\<bar> < 32768"
  shows "\<exists>p. round_float32 x = Fin p \<and> \<bar>p - x\<bar> \<le> 1 / 1024 \<and>
           (\<bar>p - x\<bar> \<le> \<bar>x\<bar> / 2 ^ 24 \<or> \<bar>p\<bar> < 1 / 2 \<and> \<bar>x\<bar> < 1 / 4)"
proof -
  define e where "e = float32_exponent \<bar>x\<bar>"
  define q :: real where "q = 2 powi (e - 23)"
  define p where "p = of_int (rint_real (x / q)) * q"
  have err: "\<bar>p - x\<bar> \<le> q / 2"
    unfolding p_def by (rule round_error) (simp add: q_def e_def)
  from assms have "\<bar>x\<bar> < 2 powi (14 + 1)" by simp
  then have e14: "e \<le> 14" unfolding e_def by (rule float32_exponent_le) simp
  then have "q \<le> 2 powi (14 - 23)"
    unfolding q_def by (intro power_int_increasing) simp_all
  then have q512: "q \<le> 1 / 512" by simp
  with err have e1024: "\<bar>p - x\<bar> \<le> 1 / 1024" by linarith
  with assms have "\<bar>p\<bar> < 32769" by linarith
  also have "(32769::real) < 2 ^ 128" by simp
  finally have "\<not> 2 ^ 128 \<le> \<bar>p\<bar>" by simp
  then have r: "round_float32 x = Fin p"
    by (simp add: round_float32_def Let_def p_def q_def e_def)
  have "\<bar>p - x\<bar> \<le> \<bar>x\<bar> / 2 ^ 24 \<or> \<bar>p\<bar> < 1 / 2 \<and> \<bar>x\<bar> < 1 / 4"
  proof (cases "2 powi e \<le> \<bar>x\<bar>")
    case True
    have "q = 2 powi e * 2 powi (- 23)"
      unfolding q_def by (subst power_int_add [symmetric]) simp_all
    then have "q / 2 = 2 powi e / 2 ^ 24" by simp
    also from True have "\<dots> \<le> \<bar>x\<bar> / 2 ^ 24" by (intro divide_right_mono) simp_all
    finally show ?thesis using err by linarith
  next
    case False
    with float32_exponent_below [of "\<bar>x\<bar>"] have e: "e = - 126" by (auto simp: e_def)
    with False have x: "\<bar>x\<bar> < 2 powi (- 126)" by simp
    have "(2::real) powi (- 126) < 1 / 4" by simp
    with x have x4: "\<bar>x\<bar> < 1 / 4" by linarith
    with e1024 have "\<bar>p\<bar> < 1 / 2" by linarith
    with x4 show ?thesis by simp
  qed
  with r e1024 show ?thesis by blast
qed

lemma float32_grid:
  assumes "round_float32 v = Fin v" "2048 \<le> \<bar>v\<bar>"
  shows "\<exists>M::int. v = of_int M / 4096"
proof -
  define e where "e = float32_exponent \<bar>v\<bar>"
  define m where "m = rint_real (v / 2 powi (e - 23))"
  from assms(2) have "2 powi 11 \<le> \<bar>v\<bar>" by simp
  then have e11: "11 \<le> e" unfolding e_def by (intro float32_exponent_ge) simp_all
  from assms(1) have v: "v = of_int m * 2 powi (e - 23)"
    by (simp add: round_float32_def Let_def m_def e_def split: if_splits)
  have "(2::real) powi (e - 23) = 2 powi (e - 11) * 2 powi (- 12)"
    by (subst power_int_add [symmetric]) simp_all
  also from e11 have "(2::real) powi (e - 11) = 2 ^ nat (e - 11)"
    by (simp add: power_int_nonneg_exp)
  finally have "v = of_int (m * 2 ^ nat (e - 11)) / 4096"
    unfolding v by simp
  then show ?thesis by blast
qed

lemma product_in_range:
  assumes "round_float32 v = Fin v" "\<bar>v\<bar> < 13107 / 4"
    and "\<bar>p - v * 10\<bar> \<le> 1 / 1024"
  shows "- 65535 / 2 < p \<and> p < 65535 / 2"
proof (cases "2048 \<le> \<bar>v\<bar>")
  case False
  with assms(3) show ?thesis by linarith
next
  case True
  with assms(1) obtain M :: int where M: "v = of_int M / 4096"
    using float32_grid by blast
  with assms(2) have "\<bar>of_int M :: real\<bar> < 13421568" by (simp add: abs_less_iff)
  then have "\<bar>M\<bar> < 13421568" by linarith
  then have "\<bar>M\<bar> \<le> 13421567" by simp
  then have "\<bar>of_int M :: real\<bar> \<le> 13421567" by linarith
  with M have "\<bar>v\<bar> \<le> 13421567 / 4096" by simp
  with assms(3) show ?thesis by linarith
qed

lemma astype_int16_integral:
  assumes "- 32768 \<le> n" "n \<le> 32767"
  shows "astype_int16 oor (Fin (of_int n)) = word_of_int n" "sint (astype_int16 oor (Fin (of_int n))) = n"
proof -
  show w: "astype_int16 oor (Fin (of_int n)) = word_of_int n"
    using assms by (simp add: Let_def)
  have "sint (word_of_int n :: 16 word) = n"
    using assms by (simp add: sint_sbintrunc' signed_take_bit_int_eq_self)
  with w show "sint (astype_int16 oor (Fin (of_int n))) = n" by simp
qed

lemma rint_real_range:
  assumes "- 65535 / 2 < x" "x < 65535 / 2"
  shows "- 32767 \<le> rint_real x \<and> rint_real x \<le> 32767"
proof -
  from rint_real_near [of x] assms
  have "- 32768 < (of_int (rint_real x) :: real)" "(of_int (rint_real x) :: real) < 32768"
    by linarith+
  then have "- 32768 < rint_real x" "rint_real x < 32768" by linarith+
  then show ?thesis by simp
qed

lemma encode_value_nan: "encode_value oor NaN = - 32768" "sint (encode_value oor NaN) = - 32768"
  using astype_int16_integral [of "- 32768" oor]
  by (simp_all add: encode_value_def missing_sentinel_def)

lemma encode_value_fin:
  assumes "fmul32 (Fin v) (Fin 10) = Fin p" "- 65535 / 2 < p" "p < 65535 / 2"
  shows "sint (encode_value oor (Fin v)) = rint_real p"
  using rint_real_range [OF assms(2,3)] astype_int16_integral(2) [of "rint_real p" oor] assms(1)
  by (simp add: encode_value_def scale_multiplier_def del: fmul32.simps)

lemma encoding_fields:
  "scale (snd (encode_values oor values)) = 1 / 10"
  "offset (snd (encode_values oor values)) = 0"
  "missing (snd (encode_values oor values)) = - 32768"
  by (simp_all add: encode_values_def Let_def scale_multiplier_def missing_sentinel_def)

text \<open>
  C1, as the code has it. For every finite single-precision value \<open>v\<close> with
  \<open>\<bar>v\<bar> < 3276.75\<close> the encoded cell is \<open>rint\<close> of the single-precision product \<open>v * 10\<close>, it
  lies between \<open>-32767\<close> and \<open>32767\<close> and so is not the missing sentinel, and the value decoded
  from it by the descriptor differs from \<open>v\<close> by at most \<open>0.05 + \<bar>v\<bar> / 2 ^ 24\<close>, the second term
  being the rounding of the product. Not-a-number is encoded as \<open>-32768\<close> and decoded as
  not-a-number. Neither depends on what the platform does with a conversion out of range.
\<close>

theorem quantisation_round_trip:
  "(astype_float32 (Fin v) = Fin v \<and> \<bar>v\<bar> < 13107 / 4 \<longrightarrow>
      (\<exists>p. fmul32 (Fin v) (Fin 10) = Fin p \<and>
         sint (encode_value oor (Fin v)) = rint_real p \<and>
         - 32767 \<le> rint_real p \<and> rint_real p \<le> 32767 \<and>
         decode_value (snd (encode_values oor values)) (encode_value oor (Fin v)) =
           Fin (of_int (rint_real p) / 10) \<and>
         \<bar>of_int (rint_real p) / 10 - v\<bar> \<le> 1 / 20 + \<bar>v\<bar> / 2 ^ 24)) \<and>
   sint (encode_value oor NaN) = - 32768 \<and>
   decode_value (snd (encode_values oor values)) (encode_value oor NaN) = NaN"
proof (intro conjI impI)
  assume a: "astype_float32 (Fin v) = Fin v \<and> \<bar>v\<bar> < 13107 / 4"
  then have rep: "round_float32 v = Fin v" and v: "\<bar>v\<bar> < 13107 / 4" by simp_all
  from v have "\<bar>v * 10\<bar> < 32768" by (simp add: abs_mult)
  then obtain p where p: "round_float32 (v * 10) = Fin p" and e: "\<bar>p - v * 10\<bar> \<le> 1 / 1024"
    and c: "\<bar>p - v * 10\<bar> \<le> \<bar>v * 10\<bar> / 2 ^ 24 \<or> \<bar>p\<bar> < 1 / 2 \<and> \<bar>v * 10\<bar> < 1 / 4"
    using round_float32_product [of "v * 10"] by blast
  from p have m: "fmul32 (Fin v) (Fin 10) = Fin p" by simp
  from product_in_range [OF rep v e] have r: "- 65535 / 2 < p" "p < 65535 / 2" by simp_all
  from encode_value_fin [OF m r] have s: "sint (encode_value oor (Fin v)) = rint_real p" .
  from rint_real_range [OF r] have b: "- 32767 \<le> rint_real p" "rint_real p \<le> 32767" by simp_all
  from s b have d: "decode_value (snd (encode_values oor values)) (encode_value oor (Fin v)) =
           Fin (of_int (rint_real p) / 10)"
    by (simp add: decode_value_def encoding_fields)
  have "\<bar>of_int (rint_real p) / 10 - v\<bar> \<le> 1 / 20 + \<bar>v\<bar> / 2 ^ 24"
  proof -
    from c show ?thesis
    proof
      assume "\<bar>p - v * 10\<bar> \<le> \<bar>v * 10\<bar> / 2 ^ 24"
      then have "\<bar>p - v * 10\<bar> \<le> 10 * (\<bar>v\<bar> / 2 ^ 24)" by (simp add: abs_mult)
      with rint_real_near [of p] have "\<bar>of_int (rint_real p) - v * 10\<bar> \<le> 1 / 2 + 10 * (\<bar>v\<bar> / 2 ^ 24)"
        by linarith
      then show ?thesis by (simp add: abs_le_iff field_simps)
    next
      assume "\<bar>p\<bar> < 1 / 2 \<and> \<bar>v * 10\<bar> < 1 / 4"
      then have "rint_real p = 0" "\<bar>v\<bar> < 1 / 40" by (simp_all add: rint_real_zero abs_mult)
      then show ?thesis by simp
    qed
  qed
  with m s b d show "\<exists>p. fmul32 (Fin v) (Fin 10) = Fin p \<and>
         sint (encode_value oor (Fin v)) = rint_real p \<and>
         - 32767 \<le> rint_real p \<and> rint_real p \<le> 32767 \<and>
         decode_value (snd (encode_values oor values)) (encode_value oor (Fin v)) =
           Fin (of_int (rint_real p) / 10) \<and>
         \<bar>of_int (rint_real p) / 10 - v\<bar> \<le> 1 / 20 + \<bar>v\<bar> / 2 ^ 24"
    by blast
next
  show "sint (encode_value oor NaN) = - 32768" by (rule encode_value_nan)
  then show "decode_value (snd (encode_values oor values)) (encode_value oor NaN) = NaN"
    by (simp add: decode_value_def encoding_fields)
qed

lemma round_float32_examples:
  "round_float32 (11744051 / 33554432) = Fin (11744051 / 33554432)"
  "round_float32 (58720255 / 16777216) = Fin (7 / 2)"
  "round_float32 (- (13107 / 4)) = Fin (- (13107 / 4))"
  "round_float32 (- (65535 / 2)) = Fin (- (65535 / 2))"
  "round_float32 (65535 / 2) = Fin (65535 / 2)"
  "round_float32 (99 / 8) = Fin (99 / 8)"
  "round_float32 (495 / 4) = Fin (495 / 4)"
proof -
  have e: "float32_exponent (11744051 / 33554432) = - 2" "float32_exponent (58720255 / 16777216) = 1"
    "float32_exponent (13107 / 4) = 11" "float32_exponent (65535 / 2) = 14"
    "float32_exponent (99 / 8) = 3" "float32_exponent (495 / 4) = 6"
    by (rule float32_exponent_eq, simp_all)+
  show "round_float32 (11744051 / 33554432) = Fin (11744051 / 33554432)"
    "round_float32 (58720255 / 16777216) = Fin (7 / 2)"
    "round_float32 (- (13107 / 4)) = Fin (- (13107 / 4))"
    "round_float32 (- (65535 / 2)) = Fin (- (65535 / 2))"
    "round_float32 (65535 / 2) = Fin (65535 / 2)"
    "round_float32 (99 / 8) = Fin (99 / 8)"
    "round_float32 (495 / 4) = Fin (495 / 4)"
    by (simp_all add: round_float32_def e rint_real_def Let_def)
qed

text \<open>
  C1 as stated fails. At the single-precision value nearest to \<open>0.35\<close> the product rounds to
  \<open>3.5\<close>, the tie goes to the even \<open>4\<close>, and the decoded \<open>0.4\<close> is more than \<open>0.05\<close> away. At
  \<open>v = -3276.75\<close> the product is \<open>-32767.5\<close>, the tie goes to the even \<open>-32768\<close>, which is the
  missing sentinel, and the value is decoded as "no data". At \<open>v = 3276.75\<close> the rounded
  product \<open>32768\<close> is outside the 16-bit range.
\<close>

theorem quantisation_counterexample:
  "astype_float32 (Fin (11744051 / 33554432)) = Fin (11744051 / 33554432) \<and>
   \<bar>11744051 / 33554432 :: real\<bar> < 16384 / 5 \<and>
   fmul32 (Fin (11744051 / 33554432)) (Fin 10) = Fin (7 / 2) \<and>
   sint (encode_value oor_x86_64 (Fin (11744051 / 33554432))) = 4 \<and>
   decode_value (snd (encode_values oor_x86_64 (Array1 [Fin (11744051 / 33554432)])))
     (encode_value oor_x86_64 (Fin (11744051 / 33554432))) = Fin (2 / 5) \<and>
   \<not> \<bar>2 / 5 - 11744051 / 33554432 :: real\<bar> \<le> 1 / 20 \<and>
   astype_float32 (Fin (- 13107 / 4)) = Fin (- 13107 / 4) \<and>
   \<bar>- 13107 / 4 :: real\<bar> < 16384 / 5 \<and>
   sint (encode_value oor_x86_64 (Fin (- 13107 / 4))) = - 32768 \<and>
   decode_value (snd (encode_values oor_x86_64 (Array1 [Fin (- 13107 / 4)])))
     (encode_value oor_x86_64 (Fin (- 13107 / 4))) = NaN \<and>
   rint (fmul32 (Fin (13107 / 4)) (Fin 10)) = Fin 32768"
  by (simp add: round_float32_examples encode_value_def scale_multiplier_def rint_real_def Let_def
        decode_value_def encoding_fields)

theorem quantisation_round_trip_witness:
  "astype_float32 (Fin (99 / 8)) = Fin (99 / 8) \<and> \<bar>99 / 8 :: real\<bar> < 13107 / 4 \<and>
   fmul32 (Fin (99 / 8)) (Fin 10) = Fin (495 / 4) \<and>
   decode_value (snd (encode_values oor_x86_64 (Array1 [Fin (99 / 8)])))
     (encode_value oor_x86_64 (Fin (99 / 8))) = Fin (62 / 5) \<and>
   \<bar>62 / 5 - 99 / 8 :: real\<bar> \<le> 1 / 20 + \<bar>99 / 8\<bar> / 2 ^ 24"
proof -
  have h: "astype_float32 (Fin (99 / 8)) = Fin (99 / 8) \<and> \<bar>99 / 8 :: real\<bar> < 13107 / 4"
    by (simp add: round_float32_examples)
  have m: "fmul32 (Fin (99 / 8)) (Fin 10) = Fin (495 / 4)"
    by (simp add: round_float32_examples)
  have r: "rint_real (495 / 4) = 124" by (simp add: rint_real_def Let_def)
  from quantisation_round_trip [of "99 / 8" oor_x86_64 "Array1 [Fin (99 / 8)]", THEN conjunct1, THEN mp, OF h]
  obtain p where "fmul32 (Fin (99 / 8)) (Fin 10) = Fin p"
    and d: "decode_value (snd (encode_values oor_x86_64 (Array1 [Fin (99 / 8)])))
      (encode_value oor_x86_64 (Fin (99 / 8))) = Fin (of_int (rint_real p) / 10)"
    and b: "\<bar>of_int (rint_real p) / 10 - 99 / 8\<bar> \<le> 1 / 20 + \<bar>99 / 8 :: real\<bar> / 2 ^ 24"
    by blast
  with m have p: "p = 495 / 4" by (simp del: fmul32.simps)
  from d b show ?thesis unfolding p r using h m by simp
qed

lemma round_float32_small_ints:
  "round_float32 1 = Fin 1" "round_float32 2 = Fin 2" "round_float32 3 = Fin 3"
  "round_float32 10 = Fin 10" "round_float32 20 = Fin 20" "round_float32 30 = Fin 30"
  using round_float32_int [of 1] round_float32_int [of 2] round_float32_int [of 3]
    round_float32_int [of 10] round_float32_int [of 20] round_float32_int [of 30]
  by simp_all

subsection \<open>The orchestrator\<close>

lemma ensure_orientation_values:
  "ensure_orientation lat v = Inr (lat', v', f) \<Longrightarrow> v' = (if f then flipud v else v)"
  by (auto simp: ensure_orientation_def split: sum.splits if_splits)

lemma process_grib_no_data_vars:
  "data_vars ds = [] \<Longrightarrow>
     process_grib oor (Inr ds) = Inl (RuntimeError ''No data variables found in GRIB file'')"
  by (simp add: process_grib_def)

lemma process_grib_data:
  assumes "process_grib oor (Inr ds) = Inr p" "data_vars ds = (name, var) # rest"
  shows "\<exists>lat0 lat raw flipped.
           latitude ds = Some lat0 \<and>
           ensure_orientation lat0 (var_values var) = Inr (lat, raw, flipped) \<and>
           unpack_shape (normalise_values raw (detect_missing_value var)) = Inr (rows p, cols p) \<and>
           data p = fst (encode_values oor (normalise_values raw (detect_missing_value var))) \<and>
           dataEncoding p = snd (encode_values oor (normalise_values raw (detect_missing_value var))) \<and>
           minValue p = min_value_of (normalise_values raw (detect_missing_value var)) \<and>
           maxValue p = max_value_of (normalise_values raw (detect_missing_value var))"
  using assms
  by (auto simp: process_grib_def Let_def split: sum.splits option.splits prod.splits)

lemma scenario_a:
  "process_grib oor_x86_64
     (Inr \<lparr>data_vars = [(''unknown'',
               \<lparr>var_values = Array2 2 [[Fin 1, Fin 2], [Fin 3, Fin (- 9999)]],
                attr_missing_value = Some (Fin (- 9999)), attr_FillValue = None\<rparr>)],
           latitude = Some (Array1 [Fin 10, Fin 20]),
           longitude = Some (True, Array1 [Fin 190, Fin 200]), time = None\<rparr>) =
   Inr \<lparr>rows = 2, cols = 2, bounds = [Fin 10, Fin (- 170), Fin 20, Fin (- 160)],
        latStep = Fin 10, lonStep = Fin 10, timestamp = None,
        minValue = Some (Fin 1), maxValue = Some (Fin 3), origin = ''upper-left'',
        dataEncoding = \<lparr>format = ''int16'', scale = 1 / 10, offset = 0, missing = - 32768,
          description = ''value = (raw * scale) + offset; missing indicates no data''\<rparr>,
        data = ''HgAAgAoAFAA=''\<rparr>"
  by (simp add: process_grib_def ensure_orientation_def corner_simps wrap_longitudes_def
        fgreater_def fsub_def normalise_values_def normalise_value_def round_float32_small_ints fle_def
        detect_missing_value_def encode_values_def encode_value_def scale_multiplier_def
        missing_sentinel_def rint_real_def Let_def tobytes_def int16_bytes_def
        extract_bounds_def sorted2_def extract_resolution_def compute_step_def
        format_timestamp_def min_value_of_def max_value_of_def nanmin_def nanmax_def
        fmin_def fmax_def b64_char_def b64_alphabet_def)

lemma scenario_a_bytes: "b64decode ''HgAAgAoAFAA='' = Some [30, 0, 0, 128, 10, 0, 20, 0]"
  by (simp add: b64_value_def b64_alphabet_def)

subsection \<open>Value range\<close>

lemma fle_refl: "\<not> isnan a \<Longrightarrow> fle a a"
  by (cases a) (auto simp: fle_def)

lemma fle_trans: "fle a b \<Longrightarrow> fle b c \<Longrightarrow> fle a c"
  by (cases a; cases b; cases c) (auto simp: fle_def)

lemma fle_antisym: "fle a b \<Longrightarrow> fle b a \<Longrightarrow> a = b"
  by (cases a; cases b) (auto simp: fle_def)

lemma fless_fle: "fless a b \<Longrightarrow> fle a b"
  by (simp add: fle_def)

lemma foldl_fmin:
  "(isnan (foldl fmin a xs) \<longleftrightarrow> (\<forall>y \<in> set (a # xs). isnan y)) \<and>
   (\<not> isnan (foldl fmin a xs) \<longrightarrow>
      foldl fmin a xs \<in> set (a # xs) \<and>
      (\<forall>y \<in> set (a # xs). \<not> isnan y \<longrightarrow> fle (foldl fmin a xs) y))"
proof (induction xs arbitrary: a)
  case Nil
  show ?case by (simp add: fle_refl)
next
  case (Cons x xs)
  let ?r = "foldl fmin (fmin a x) xs"
  note ih = Cons.IH [of "fmin a x"]
  have m: "(isnan (fmin a x) \<longleftrightarrow> isnan a \<and> isnan x) \<and>
     (\<not> isnan (fmin a x) \<longrightarrow> fmin a x \<in> {a, x} \<and> (\<not> isnan a \<longrightarrow> fle (fmin a x) a) \<and>
        (\<not> isnan x \<longrightarrow> fle (fmin a x) x))"
    by (auto simp: fmin_def fle_refl fless_fle fle_total)
  show ?case
  proof (intro conjI impI)
    show "isnan (foldl fmin a (x # xs)) \<longleftrightarrow> (\<forall>y \<in> set (a # x # xs). isnan y)"
      using ih m by auto
  next
    assume n: "\<not> isnan (foldl fmin a (x # xs))"
    then have n': "\<not> isnan ?r" by simp
    with ih have mem: "?r \<in> set (fmin a x # xs)"
      and le: "\<forall>y \<in> set (fmin a x # xs). \<not> isnan y \<longrightarrow> fle ?r y" by blast+
    show "foldl fmin a (x # xs) \<in> set (a # x # xs)"
    proof (cases "?r = fmin a x")
      case True
      with n' m show ?thesis by auto
    next
      case False
      with mem show ?thesis by auto
    qed
    show "\<forall>y \<in> set (a # x # xs). \<not> isnan y \<longrightarrow> fle (foldl fmin a (x # xs)) y"
    proof (intro ballI impI)
      fix y assume y: "y \<in> set (a # x # xs)" "\<not> isnan y"
      show "fle (foldl fmin a (x # xs)) y"
      proof (cases "y \<in> set xs")
        case True
        with le y show ?thesis by simp
      next
        case False
        with y have yy: "y = a \<or> y = x" by auto
        with y m have nm: "\<not> isnan (fmin a x)" by auto
        with le have "fle ?r (fmin a x)" by simp
        moreover from yy y m nm have "fle (fmin a x) y" by auto
        ultimately show ?thesis by (auto intro: fle_trans)
      qed
    qed
  qed
qed

lemma foldl_fmax:
  "(isnan (foldl fmax a xs) \<longleftrightarrow> (\<forall>y \<in> set (a # xs). isnan y)) \<and>
   (\<not> isnan (foldl fmax a xs) \<longrightarrow>
      foldl fmax a xs \<in> set (a # xs) \<and>
      (\<forall>y \<in> set (a # xs). \<not> isnan y \<longrightarrow> fle y (foldl fmax a xs)))"
proof (induction xs arbitrary: a)
  case Nil
  show ?case by (simp add: fle_refl)
next
  case (Cons x xs)
  let ?r = "foldl fmax (fmax a x) xs"
  note ih = Cons.IH [of "fmax a x"]
  have m: "(isnan (fmax a x) \<longleftrightarrow> isnan a \<and> isnan x) \<and>
     (\<not> isnan (fmax a x) \<longrightarrow> fmax a x \<in> {a, x} \<and> (\<not> isnan a \<longrightarrow> fle a (fmax a x)) \<and>
        (\<not> isnan x \<longrightarrow> fle x (fmax a x)))"
    by (auto simp: fmax_def fle_refl fless_fle fle_total)
  show ?case
  proof (intro conjI impI)
    show "isnan (foldl fmax a (x # xs)) \<longleftrightarrow> (\<forall>y \<in> set (a # x # xs). isnan y)"
      using ih m by auto
  next
    assume n: "\<not> isnan (foldl fmax a (x # xs))"
    then have n': "\<not> isnan ?r" by simp
    with ih have mem: "?r \<in> set (fmax a x # xs)"
      and le: "\<forall>y \<in> set (fmax a x # xs). \<not> isnan y \<longrightarrow> fle y ?r" by blast+
    show "foldl fmax a (x # xs) \<in> set (a # x # xs)"
    proof (cases "?r = fmax a x")
      case True
      with n' m show ?thesis by auto
    next
      case False
      with mem show ?thesis by auto
    qed
    show "\<forall>y \<in> set (a # x # xs). \<not> isnan y \<longrightarrow> fle y (foldl fmax a (x # xs))"
    proof (intro ballI impI)
      fix y assume y: "y \<in> set (a # x # xs)" "\<not> isnan y"
      show "fle y (foldl fmax a (x # xs))"
      proof (cases "y \<in> set xs")
        case True
        with le y show ?thesis by simp
      next
        case False
        with y have yy: "y = a \<or> y = x" by auto
        with y m have nm: "\<not> isnan (fmax a x)" by auto
        with le have "fle (fmax a x) ?r" by simp
        moreover from yy y m nm have "fle y (fmax a x)" by auto
        ultimately show ?thesis by (auto intro: fle_trans)
      qed
    qed
  qed
qed

lemma isfinite_not_nan: "isfinite m \<Longrightarrow> \<not> isnan m"
  by (cases m) auto

lemma min_value_of_iff:
  "min_value_of values = Some m \<longleftrightarrow>
     isfinite m \<and> m \<in> set (ravel values) \<and> (\<forall>x \<in> set (ravel values). \<not> isnan x \<longrightarrow> fle m x)"
proof (cases "ravel values")
  case Nil
  then show ?thesis by (simp add: min_value_of_def nanmin_def)
next
  case (Cons a xs)
  let ?r = "foldl fmin a xs"
  from Cons have mv: "min_value_of values = (if isfinite ?r then Some ?r else None)"
    by (simp add: min_value_of_def nanmin_def)
  note f = foldl_fmin [of a xs]
  show ?thesis
  proof
    assume "min_value_of values = Some m"
    with mv have "isfinite ?r" "m = ?r" by (auto split: if_splits)
    with f Cons show "isfinite m \<and> m \<in> set (ravel values) \<and>
        (\<forall>x \<in> set (ravel values). \<not> isnan x \<longrightarrow> fle m x)"
      by (auto dest: isfinite_not_nan)
  next
    assume a: "isfinite m \<and> m \<in> set (ravel values) \<and>
        (\<forall>x \<in> set (ravel values). \<not> isnan x \<longrightarrow> fle m x)"
    then have mn: "\<not> isnan m" by (auto dest: isfinite_not_nan)
    with a Cons f have rn: "\<not> isnan ?r" by auto
    with f have "?r \<in> set (a # xs)" "fle ?r m" using a mn Cons by auto
    moreover with a rn Cons have "fle m ?r" by auto
    ultimately have "m = ?r" by (auto intro: fle_antisym)
    with a mv show "min_value_of values = Some m" by simp
  qed
qed

lemma max_value_of_iff:
  "max_value_of values = Some m \<longleftrightarrow>
     isfinite m \<and> m \<in> set (ravel values) \<and> (\<forall>x \<in> set (ravel values). \<not> isnan x \<longrightarrow> fle x m)"
proof (cases "ravel values")
  case Nil
  then show ?thesis by (simp add: max_value_of_def nanmax_def)
next
  case (Cons a xs)
  let ?r = "foldl fmax a xs"
  from Cons have mv: "max_value_of values = (if isfinite ?r then Some ?r else None)"
    by (simp add: max_value_of_def nanmax_def)
  note f = foldl_fmax [of a xs]
  show ?thesis
  proof
    assume "max_value_of values = Some m"
    with mv have "isfinite ?r" "m = ?r" by (auto split: if_splits)
    with f Cons show "isfinite m \<and> m \<in> set (ravel values) \<and>
        (\<forall>x \<in> set (ravel values). \<not> isnan x \<longrightarrow> fle x m)"
      by (auto dest: isfinite_not_nan)
  next
    assume a: "isfinite m \<and> m \<in> set (ravel values) \<and>
        (\<forall>x \<in> set (ravel values). \<not> isnan x \<longrightarrow> fle x m)"
    then have mn: "\<not> isnan m" by (auto dest: isfinite_not_nan)
    with a Cons f have rn: "\<not> isnan ?r" by auto
    with f have "?r \<in> set (a # xs)" "fle m ?r" using a mn Cons by auto
    moreover with a rn Cons have "fle ?r m" by auto
    ultimately have "m = ?r" by (auto intro: fle_antisym)
    with a mv show "max_value_of values = Some m" by simp
  qed
qed

lemma value_range_all_nan:
  assumes "\<forall>x \<in> set (ravel values). isnan x"
  shows "min_value_of values = None \<and> max_value_of values = None"
proof -
  have "min_value_of values \<noteq> Some m" for m
    using assms by (auto simp: min_value_of_iff dest: isfinite_not_nan)
  moreover have "max_value_of values \<noteq> Some m" for m
    using assms by (auto simp: max_value_of_iff dest: isfinite_not_nan)
  ultimately show ?thesis by (metis option.exhaust)
qed

lemma value_range_present:
  assumes "\<exists>x \<in> set (ravel values). \<not> isnan x"
    and "\<forall>x \<in> set (ravel values). \<not> isnan x \<longrightarrow> isfinite x"
  shows "min_value_of values \<noteq> None \<and> max_value_of values \<noteq> None"
proof -
  from assms(1) obtain a xs where c: "ravel values = a # xs" by (cases "ravel values") auto
  from assms(1) c have "\<not> isnan (foldl fmin a xs)" "\<not> isnan (foldl fmax a xs)"
    using foldl_fmin [of a xs] foldl_fmax [of a xs] by auto
  then have "foldl fmin a xs \<in> set (ravel values)" "foldl fmax a xs \<in> set (ravel values)"
    "\<not> isnan (foldl fmin a xs)" "\<not> isnan (foldl fmax a xs)"
    using foldl_fmin [of a xs] foldl_fmax [of a xs] c by auto
  with assms(2) have "isfinite (foldl fmin a xs)" "isfinite (foldl fmax a xs)" by auto
  with c show ?thesis by (simp add: min_value_of_def max_value_of_def nanmin_def nanmax_def)
qed

text \<open>
  C6, as the code has it. \<open>minValue\<close> is \<open>lo\<close> exactly when \<open>lo\<close> is finite, is a sample of the
  grid and is at most every sample that is not not-a-number; \<open>maxValue\<close> likewise with the
  greatest such sample. Both are absent when the grid has no sample other than not-a-number
  (an empty grid included), and both are present when the grid has such a sample and all such
  samples are finite. The two fields of a payload of \<open>process_grib\<close> are these values for the
  normalised grid.
\<close>

theorem value_range:
  "(min_value_of values = Some lo \<longleftrightarrow>
      isfinite lo \<and> lo \<in> set (ravel values) \<and>
      (\<forall>x \<in> set (ravel values). \<not> isnan x \<longrightarrow> fle lo x)) \<and>
   (max_value_of values = Some hi \<longleftrightarrow>
      isfinite hi \<and> hi \<in> set (ravel values) \<and>
      (\<forall>x \<in> set (ravel values). \<not> isnan x \<longrightarrow> fle x hi)) \<and>
   ((\<forall>x \<in> set (ravel values). isnan x) \<longrightarrow>
      min_value_of values = None \<and> max_value_of values = None) \<and>
   ((\<exists>x \<in> set (ravel values). \<not> isnan x) \<and>
    (\<forall>x \<in> set (ravel values). \<not> isnan x \<longrightarrow> isfinite x) \<longrightarrow>
      min_value_of values \<noteq> None \<and> max_value_of values \<noteq> None) \<and>
   (process_grib oor (Inr ds) = Inr p \<and> data_vars ds = (name, var) # rest \<longrightarrow>
      (\<exists>raw. (raw = var_values var \<or> raw = flipud (var_values var)) \<and>
         minValue p = min_value_of (normalise_values raw (detect_missing_value var)) \<and>
         maxValue p = max_value_of (normalise_values raw (detect_missing_value var))))"
proof -
  have "\<exists>raw. (raw = var_values var \<or> raw = flipud (var_values var)) \<and>
         minValue p = min_value_of (normalise_values raw (detect_missing_value var)) \<and>
         maxValue p = max_value_of (normalise_values raw (detect_missing_value var))"
    if "process_grib oor (Inr ds) = Inr p \<and> data_vars ds = (name, var) # rest"
  proof -
    from that obtain lat0 lat raw flipped where
      o: "ensure_orientation lat0 (var_values var) = Inr (lat, raw, flipped)"
      and m: "minValue p = min_value_of (normalise_values raw (detect_missing_value var))"
        "maxValue p = max_value_of (normalise_values raw (detect_missing_value var))"
      using process_grib_data [of oor ds p name var rest] by blast
    from o have "raw = (if flipped then flipud (var_values var) else var_values var)"
      by (rule ensure_orientation_values)
    then have "raw = var_values var \<or> raw = flipud (var_values var)" by (cases flipped) auto
    with m show ?thesis by blast
  qed
  then show ?thesis
    using min_value_of_iff [of "values" lo] max_value_of_iff [of "values" hi]
      value_range_all_nan [of "values"] value_range_present [of "values"]
    by blast
qed

text \<open>
  C6 as stated fails on a grid that holds \<open>+inf\<close>, which the normaliser keeps: with the only
  sample \<open>+inf\<close> both fields are absent although the grid is not entirely "no data", and
  with the samples \<open>1\<close> and \<open>+inf\<close> the maximum is absent while the minimum is present.
\<close>

theorem value_range_counterexample:
  "normalise_values (Array2 1 [[PInf]]) None = Array2 1 [[PInf]] \<and> \<not> isnan PInf \<and>
   min_value_of (Array2 1 [[PInf]]) = None \<and> max_value_of (Array2 1 [[PInf]]) = None \<and>
   normalise_values (Array2 2 [[Fin 1, PInf]]) None = Array2 2 [[Fin 1, PInf]] \<and>
   min_value_of (Array2 2 [[Fin 1, PInf]]) = Some (Fin 1) \<and>
   max_value_of (Array2 2 [[Fin 1, PInf]]) = None"
  by (simp add: normalise_values_def normalise_value_def round_float32_small_ints fle_def
        min_value_of_def max_value_of_def nanmin_def nanmax_def fmin_def fmax_def)

theorem value_range_witness:
  "min_value_of (Array2 2 [[Fin 3, Fin 2], [Fin 1, NaN]]) = Some (Fin 1) \<and>
   max_value_of (Array2 2 [[Fin 3, Fin 2], [Fin 1, NaN]]) = Some (Fin 3) \<and>
   min_value_of (Array2 2 [[NaN, NaN]]) = None \<and> max_value_of (Array2 2 [[NaN, NaN]]) = None \<and>
   (\<exists>p. process_grib oor_x86_64
     (Inr \<lparr>data_vars = [(''unknown'',
               \<lparr>var_values = Array2 2 [[Fin 1, Fin 2], [Fin 3, Fin (- 9999)]],
                attr_missing_value = Some (Fin (- 9999)), attr_FillValue = None\<rparr>)],
           latitude = Some (Array1 [Fin 10, Fin 20]),
           longitude = Some (True, Array1 [Fin 190, Fin 200]), time = None\<rparr>) = Inr p \<and>
      minValue p = Some (Fin 1) \<and> maxValue p = Some (Fin 3) \<and>
      (\<exists>raw. minValue p = min_value_of (normalise_values raw (Some (Fin (- 9999)))) \<and>
             maxValue p = max_value_of (normalise_values raw (Some (Fin (- 9999))))))"
proof -
  let ?v = "Array2 2 [[Fin 3, Fin 2], [Fin 1, NaN]]"
  have lo: "isfinite (Fin 1) \<and> Fin 1 \<in> set (ravel ?v) \<and>
      (\<forall>x \<in> set (ravel ?v). \<not> isnan x \<longrightarrow> fle (Fin 1) x)"
    by (simp add: fle_def)
  have hi: "isfinite (Fin 3) \<and> Fin 3 \<in> set (ravel ?v) \<and>
      (\<forall>x \<in> set (ravel ?v). \<not> isnan x \<longrightarrow> fle x (Fin 3))"
    by (simp add: fle_def)
  have n: "\<forall>x \<in> set (ravel (Array2 2 [[NaN, NaN]])). isnan x" by simp
  from value_range [of ?v "Fin 1" "Fin 3"] lo hi
  have "min_value_of ?v = Some (Fin 1)" "max_value_of ?v = Some (Fin 3)" by blast+
  moreover from value_range [of "Array2 2 [[NaN, NaN]]" NaN NaN] n
  have "min_value_of (Array2 2 [[NaN, NaN]]) = None \<and> max_value_of (Array2 2 [[NaN, NaN]]) = None"
    by blast
  moreover
  let ?var = "\<lparr>var_values = Array2 2 [[Fin 1, Fin 2], [Fin 3, Fin (- 9999)]],
                attr_missing_value = Some (Fin (- 9999)), attr_FillValue = None\<rparr>"
  let ?ds = "\<lparr>data_vars = [(''unknown'', ?var)],
           latitude = Some (Array1 [Fin 10, Fin 20]),
           longitude = Some (True, Array1 [Fin 190, Fin 200]), time = None\<rparr>"
  let ?p = "\<lparr>rows = 2, cols = 2, bounds = [Fin 10, Fin (- 170), Fin 20, Fin (- 160)],
        latStep = Fin 10, lonStep = Fin 10, timestamp = None,
        minValue = Some (Fin 1), maxValue = Some (Fin 3), origin = ''upper-left'',
        dataEncoding = \<lparr>format = ''int16'', scale = 1 / 10, offset = 0, missing = - 32768,
          description = ''value = (raw * scale) + offset; missing indicates no data''\<rparr>,
        data = ''HgAAgAoAFAA=''\<rparr>"
  have h: "process_grib oor_x86_64 (Inr ?ds) = Inr ?p" by (rule scenario_a)
  have v: "data_vars ?ds = (''unknown'', ?var) # []" by simp
  have m: "detect_missing_value ?var = Some (Fin (- 9999))" by (simp add: detect_missing_value_def)
  from value_range [of "Array1 []" NaN NaN oor_x86_64 ?ds ?p "''unknown''" ?var "[]"] h v
  have "\<exists>raw. (raw = var_values ?var \<or> raw = flipud (var_values ?var)) \<and>
         minValue ?p = min_value_of (normalise_values raw (detect_missing_value ?var)) \<and>
         maxValue ?p = max_value_of (normalise_values raw (detect_missing_value ?var))"
    by blast
  then have "\<exists>raw. minValue ?p = min_value_of (normalise_values raw (Some (Fin (- 9999)))) \<and>
             maxValue ?p = max_value_of (normalise_values raw (Some (Fin (- 9999))))"
    unfolding m by blast
  with h have "\<exists>p. process_grib oor_x86_64 (Inr ?ds) = Inr p \<and>
      minValue p = Some (Fin 1) \<and> maxValue p = Some (Fin 3) \<and>
      (\<exists>raw. minValue p = min_value_of (normalise_values raw (Some (Fin (- 9999)))) \<and>
             maxValue p = max_value_of (normalise_values raw (Some (Fin (- 9999)))))"
    by (intro exI [of _ ?p]) simp
  ultimately show ?thesis by simp
qed

subsection \<open>The encoded buffer\<close>

lemma encode_values_data:
  "fst (encode_values oor values) = b64encode (tobytes (map_array (encode_value oor) values))"
  by (simp add: encode_values_def Let_def)

lemma index_of_nth: "distinct xs \<Longrightarrow> n < length xs \<Longrightarrow> index_of xs (xs ! n) = Some n"
proof (induction xs arbitrary: n)
  case Nil
  then show ?case by simp
next
  case (Cons x xs)
  show ?case
  proof (cases n)
    case 0
    then show ?thesis by simp
  next
    case (Suc k)
    with Cons.prems have "xs ! k \<in> set xs" "x \<notin> set xs" by auto
    then have "x \<noteq> xs ! k" by auto
    with Suc Cons show ?thesis by simp
  qed
qed

lemma distinct_b64_alphabet: "distinct b64_alphabet"
  by (simp add: b64_alphabet_def)

lemma length_b64_alphabet: "length b64_alphabet = 64"
  by (simp add: b64_alphabet_def)

lemma pad_not_in_alphabet: "CHR ''='' \<notin> set b64_alphabet"
  by (simp add: b64_alphabet_def)

lemma b64_value_char: "n < 64 \<Longrightarrow> b64_value (b64_char n) = Some n"
  by (simp add: b64_value_def b64_char_def index_of_nth distinct_b64_alphabet length_b64_alphabet)

lemma b64_char_not_pad:
  assumes n: "n < 64"
  shows "b64_char n \<noteq> CHR ''=''"
proof
  assume e: "b64_char n = CHR ''=''"
  from n have "b64_alphabet ! n \<in> set b64_alphabet"
    by (simp add: length_b64_alphabet)
  with e pad_not_in_alphabet show False by (simp add: b64_char_def)
qed

lemma unat_byte: "unat (a :: byte) < 256"
  using unsigned_less [of a, where 'a = nat] by simp

lemma sextets:
  fixes x y :: nat
  assumes "x < 256" "y < 256"
  shows "x div 4 < 64" "x mod 4 * 16 + y div 16 < 64" "x mod 16 * 4 + y div 64 < 64" "x mod 64 < 64"
    "x mod 4 * 16 < 64" "x mod 16 * 4 < 64"
    "x div 4 * 4 + (x mod 4 * 16 + y div 16) div 16 = x"
    "(x mod 4 * 16 + y div 16) div 16 = x mod 4"
    "(x mod 4 * 16 + y div 16) mod 16 = y div 16"
    "(x mod 16 * 4 + y div 64) div 4 = x mod 16"
    "(x mod 16 * 4 + y div 64) mod 4 = y div 64"
  using assms by auto

lemma regroup:
  fixes x y z :: nat
  assumes "x < 256" "y < 256" "z < 256"
  shows "x div 4 * 4 + (x mod 4 * 16 + y div 16) div 16 = x"
    "(x mod 4 * 16 + y div 16) mod 16 * 16 + (y mod 16 * 4 + z div 64) div 4 = y"
    "(y mod 16 * 4 + z div 64) mod 4 * 64 + z mod 64 = z"
    "x div 4 * 4 + x mod 4 * 16 div 16 = x"
    "(x mod 4 * 16 + y div 16) mod 16 * 16 + y mod 16 * 4 div 4 = y"
proof -
  from assms have a: "(x mod 4 * 16 + y div 16) div 16 = x mod 4"
    "(x mod 4 * 16 + y div 16) mod 16 = y div 16"
    "(y mod 16 * 4 + z div 64) div 4 = y mod 16"
    "(y mod 16 * 4 + z div 64) mod 4 = z div 64"
    by auto
  show "x div 4 * 4 + (x mod 4 * 16 + y div 16) div 16 = x" unfolding a by simp
  show "(x mod 4 * 16 + y div 16) mod 16 * 16 + (y mod 16 * 4 + z div 64) div 4 = y"
    unfolding a by simp
  show "(y mod 16 * 4 + z div 64) mod 4 * 64 + z mod 64 = z" unfolding a by simp
  show "x div 4 * 4 + x mod 4 * 16 div 16 = x" by simp
  show "(x mod 4 * 16 + y div 16) mod 16 * 16 + y mod 16 * 4 div 4 = y" unfolding a by simp
qed

lemma b64_bytes:
  fixes a b c :: byte
  shows "of_nat (unat a div 4 * 4 + (unat a mod 4 * 16 + unat b div 16) div 16) = a"
    "of_nat ((unat a mod 4 * 16 + unat b div 16) mod 16 * 16 + (unat b mod 16 * 4 + unat c div 64) div 4) = b"
    "of_nat ((unat b mod 16 * 4 + unat c div 64) mod 4 * 64 + unat c mod 64) = c"
    "of_nat (unat a div 4 * 4 + unat a mod 4 * 16 div 16) = a"
    "of_nat ((unat a mod 4 * 16 + unat b div 16) mod 16 * 16 + unat b mod 16 * 4 div 4) = b"
  unfolding regroup [OF unat_byte [of a] unat_byte [of b] unat_byte [of c]]
  by simp_all

lemma b64decode_full:
  assumes "p < 64" "q < 64" "r < 64" "s < 64"
  shows "b64decode (b64_char p # b64_char q # b64_char r # b64_char s # cs) =
     map_option (\<lambda>bs. [of_nat (p * 4 + q div 16), of_nat (q mod 16 * 16 + r div 4),
                         of_nat (r mod 4 * 64 + s)] @ bs) (b64decode cs)"
  using assms by (cases "b64decode cs") (simp_all add: b64_value_char b64_char_not_pad)

lemma b64decode_pad1:
  assumes "p < 64" "q < 64" "r < 64"
  shows "b64decode [b64_char p, b64_char q, b64_char r, CHR ''=''] =
     Some [of_nat (p * 4 + q div 16), of_nat (q mod 16 * 16 + r div 4)]"
  using assms by (simp add: b64_value_char b64_char_not_pad)

lemma b64decode_pad2:
  assumes "p < 64" "q < 64"
  shows "b64decode [b64_char p, b64_char q, CHR ''='', CHR ''=''] = Some [of_nat (p * 4 + q div 16)]"
  using assms by (simp add: b64_value_char)

lemma b64decode_b64encode: "b64decode (b64encode bs) = Some bs"
proof (induction bs rule: b64encode.induct)
  case 1
  show ?case by simp
next
  case (2 a)
  have s: "unat a div 4 < 64" "unat a mod 4 * 16 < 64"
    using sextets [OF unat_byte [of a] unat_byte [of a]] by blast+
  have "b64decode (b64encode [a]) = Some [of_nat (unat a div 4 * 4 + unat a mod 4 * 16 div 16)]"
    by (simp only: b64encode.simps b64decode_pad2 [OF s])
  also have "of_nat (unat a div 4 * 4 + unat a mod 4 * 16 div 16) = a"
    by (rule b64_bytes)
  finally show ?case .
next
  case (3 a b)
  have s: "unat a div 4 < 64" "unat a mod 4 * 16 + unat b div 16 < 64" "unat b mod 16 * 4 < 64"
    using sextets [OF unat_byte [of a] unat_byte [of b]] sextets [OF unat_byte [of b] unat_byte [of b]]
    by blast+
  have "b64decode (b64encode [a, b]) =
      Some [of_nat (unat a div 4 * 4 + (unat a mod 4 * 16 + unat b div 16) div 16),
            of_nat ((unat a mod 4 * 16 + unat b div 16) mod 16 * 16 + unat b mod 16 * 4 div 4)]"
    by (simp only: b64encode.simps b64decode_pad1 [OF s])
  then show ?case by (simp only: b64_bytes)
next
  case (4 a b c bs)
  have s: "unat a div 4 < 64" "unat a mod 4 * 16 + unat b div 16 < 64"
    "unat b mod 16 * 4 + unat c div 64 < 64" "unat c mod 64 < 64"
    using sextets [OF unat_byte [of a] unat_byte [of b]] sextets [OF unat_byte [of b] unat_byte [of c]]
      sextets [OF unat_byte [of c] unat_byte [of c]]
    by blast+
  have "b64decode (b64encode (a # b # c # bs)) =
      Some ([of_nat (unat a div 4 * 4 + (unat a mod 4 * 16 + unat b div 16) div 16),
            of_nat ((unat a mod 4 * 16 + unat b div 16) mod 16 * 16 + (unat b mod 16 * 4 + unat c div 64) div 4),
            of_nat ((unat b mod 16 * 4 + unat c div 64) mod 4 * 64 + unat c mod 64)] @ bs)"
    by (simp only: b64encode.simps append.simps b64decode_full [OF s] "4.IH" option.map)
  then show ?case by (simp only: b64_bytes append.simps)
qed

lemma length_concat_rows:
  "list_all (\<lambda>r. length r = c) rs \<Longrightarrow> length (concat rs) = length rs * c"
  by (induction rs) simp_all

lemma int16_bytes_cat: "word_cat (int16_bytes w ! 1) (int16_bytes w ! 0) = w"
  by (rule bit_word_eqI) (auto simp: int16_bytes_def bit_simps)

lemma b64decode_data:
  "b64decode (fst (encode_values oor values)) =
     Some (concat (map (\<lambda>x. int16_bytes (encode_value oor x)) (ravel values)))"
  by (simp add: encode_values_data b64decode_b64encode tobytes_def ravel_map_array comp_def)

lemma length_int16_cells:
  "length (concat (map (\<lambda>x. int16_bytes (encode_value oor x)) xs)) = 2 * length xs"
  by (induction xs) (simp_all add: int16_bytes_def)

lemma unpack_shape_iff: "unpack_shape a = Inr (r, c) \<longleftrightarrow> shape a = [r, c]"
  by (cases a) auto

lemma shape_cells: "wf_array a \<Longrightarrow> shape a = [r, c] \<Longrightarrow> length (ravel a) = r * c"
  by (cases a) (auto simp: length_concat_rows)

lemma shape_flipud: "shape (flipud a) = shape a"
  by (cases a) simp_all

lemma shape_map_array: "shape (map_array f a) = shape a"
  by (cases a) simp_all

text \<open>
  C10. For a grid of shape \<open>nrows \<times> ncols\<close> the data string of \<open>encode_values\<close> is valid
  base64: it decodes to the two bytes of each encoded cell, low byte first, in row-major order,
  \<open>2 * nrows * ncols\<close> bytes in all, and the two bytes of a cell give the cell back. In a
  payload of \<open>process_grib\<close> the fields \<open>rows\<close> and \<open>cols\<close> are the shape of the values of the
  first data variable, the data string is the one \<open>encode_values\<close> gives for the normalised
  values, flipped or not, and it decodes to \<open>2 * rows * cols\<close> bytes.
\<close>

theorem encoded_buffer_size:
  "(wf_array values \<and> shape values = [nrows, ncols] \<longrightarrow>
      b64decode (fst (encode_values oor values)) =
        Some (concat (map (\<lambda>x. int16_bytes (encode_value oor x)) (ravel values))) \<and>
      length (concat (map (\<lambda>x. int16_bytes (encode_value oor x)) (ravel values))) =
        2 * nrows * ncols) \<and>
   length (int16_bytes w) = 2 \<and> word_cat (int16_bytes w ! 1) (int16_bytes w ! 0) = w \<and>
   (process_grib oor (Inr ds) = Inr p \<and> data_vars ds = (name, var) # rest \<and>
    wf_array (var_values var) \<longrightarrow>
      shape (var_values var) = [rows p, cols p] \<and>
      (\<exists>raw. (raw = var_values var \<or> raw = flipud (var_values var)) \<and>
         shape (normalise_values raw (detect_missing_value var)) = [rows p, cols p] \<and>
         data p = fst (encode_values oor (normalise_values raw (detect_missing_value var)))) \<and>
      (\<exists>bs. b64decode (data p) = Some bs \<and> length bs = 2 * rows p * cols p))"
proof (intro conjI impI)
  assume a: "wf_array values \<and> shape values = [nrows, ncols]"
  show "b64decode (fst (encode_values oor values)) =
        Some (concat (map (\<lambda>x. int16_bytes (encode_value oor x)) (ravel values)))"
    by (rule b64decode_data)
  from a show "length (concat (map (\<lambda>x. int16_bytes (encode_value oor x)) (ravel values))) =
        2 * nrows * ncols"
    by (simp add: length_int16_cells shape_cells)
next
  show "length (int16_bytes w) = 2" by (simp add: int16_bytes_def)
  show "word_cat (int16_bytes w ! 1) (int16_bytes w ! 0) = w" by (rule int16_bytes_cat)
next
  assume b: "process_grib oor (Inr ds) = Inr p \<and> data_vars ds = (name, var) # rest \<and>
    wf_array (var_values var)"
  then obtain lat0 lat raw flipped where
    o: "ensure_orientation lat0 (var_values var) = Inr (lat, raw, flipped)"
    and u: "unpack_shape (normalise_values raw (detect_missing_value var)) = Inr (rows p, cols p)"
    and d: "data p = fst (encode_values oor (normalise_values raw (detect_missing_value var)))"
    using process_grib_data [of oor ds p name var rest] by blast
  from o have r: "raw = (if flipped then flipud (var_values var) else var_values var)"
    by (rule ensure_orientation_values)
  from u have s: "shape (normalise_values raw (detect_missing_value var)) = [rows p, cols p]"
    by (simp add: unpack_shape_iff)
  with r show "shape (var_values var) = [rows p, cols p]"
    by (simp add: normalise_values_def shape_map_array shape_flipud split: if_splits)
  from r have "raw = var_values var \<or> raw = flipud (var_values var)" by (cases flipped) auto
  with s d show "\<exists>raw. (raw = var_values var \<or> raw = flipud (var_values var)) \<and>
         shape (normalise_values raw (detect_missing_value var)) = [rows p, cols p] \<and>
         data p = fst (encode_values oor (normalise_values raw (detect_missing_value var)))"
    by blast
  from b r have "wf_array (normalise_values raw (detect_missing_value var))"
    by (simp add: normalise_values_def wf_map_array wf_flipud)
  then have "length (ravel (normalise_values raw (detect_missing_value var))) = rows p * cols p"
    using s by (rule shape_cells)
  then show "\<exists>bs. b64decode (data p) = Some bs \<and> length bs = 2 * rows p * cols p"
    by (simp add: d b64decode_data length_int16_cells)
qed

theorem encoded_buffer_size_witness:
  "process_grib oor_x86_64
     (Inr \<lparr>data_vars = [(''unknown'',
               \<lparr>var_values = Array2 2 [[Fin 1, Fin 2], [Fin 3, Fin (- 9999)]],
                attr_missing_value = Some (Fin (- 9999)), attr_FillValue = None\<rparr>)],
           latitude = Some (Array1 [Fin 10, Fin 20]),
           longitude = Some (True, Array1 [Fin 190, Fin 200]), time = None\<rparr>) =
   Inr \<lparr>rows = 2, cols = 2, bounds = [Fin 10, Fin (- 170), Fin 20, Fin (- 160)],
        latStep = Fin 10, lonStep = Fin 10, timestamp = None,
        minValue = Some (Fin 1), maxValue = Some (Fin 3), origin = ''upper-left'',
        dataEncoding = \<lparr>format = ''int16'', scale = 1 / 10, offset = 0, missing = - 32768,
          description = ''value = (raw * scale) + offset; missing indicates no data''\<rparr>,
        data = ''HgAAgAoAFAA=''\<rparr> \<and>
   wf_array (Array2 2 [[Fin 3, NaN], [Fin 1, Fin 2 :: float]]) \<and>
   shape (Array2 2 [[Fin 3, NaN], [Fin 1, Fin 2 :: float]]) = [2, 2] \<and>
   b64decode (fst (encode_values oor_x86_64 (Array2 2 [[Fin 3, NaN], [Fin 1, Fin 2]]))) =
     Some [30, 0, 0, 128, 10, 0, 20, 0] \<and>
   (\<exists>bs. b64decode ''HgAAgAoAFAA='' = Some bs \<and> length bs = 2 * 2 * 2)"
proof -
  let ?var = "\<lparr>var_values = Array2 2 [[Fin 1, Fin 2], [Fin 3, Fin (- 9999)]],
                attr_missing_value = Some (Fin (- 9999)), attr_FillValue = None\<rparr>"
  let ?ds = "\<lparr>data_vars = [(''unknown'', ?var)],
           latitude = Some (Array1 [Fin 10, Fin 20]),
           longitude = Some (True, Array1 [Fin 190, Fin 200]), time = None\<rparr>"
  let ?p = "\<lparr>rows = 2, cols = 2, bounds = [Fin 10, Fin (- 170), Fin 20, Fin (- 160)],
        latStep = Fin 10, lonStep = Fin 10, timestamp = None,
        minValue = Some (Fin 1), maxValue = Some (Fin 3), origin = ''upper-left'',
        dataEncoding = \<lparr>format = ''int16'', scale = 1 / 10, offset = 0, missing = - 32768,
          description = ''value = (raw * scale) + offset; missing indicates no data''\<rparr>,
        data = ''HgAAgAoAFAA=''\<rparr>"
  let ?g = "Array2 2 [[Fin 3, NaN], [Fin 1, Fin 2 :: float]]"
  have h: "process_grib oor_x86_64 (Inr ?ds) = Inr ?p" by (rule scenario_a)
  have g: "wf_array ?g \<and> shape ?g = [2, 2]" by simp
  have v: "data_vars ?ds = (''unknown'', ?var) # []" "wf_array (var_values ?var)" by simp_all
  have c: "map (encode_value oor_x86_64) [Fin 3, NaN, Fin 1, Fin 2] = [30, - 32768, 10, 20]"
    by (simp add: encode_value_def scale_multiplier_def missing_sentinel_def rint_real_def Let_def
          round_float32_small_ints)
  note t = encoded_buffer_size [of ?g 2 2 oor_x86_64 0 ?ds ?p "''unknown''" ?var "[]"]
  from t g have "b64decode (fst (encode_values oor_x86_64 ?g)) =
        Some (concat (map (\<lambda>x. int16_bytes (encode_value oor_x86_64 x)) (ravel ?g)))"
    by blast
  then have d: "b64decode (fst (encode_values oor_x86_64 ?g)) = Some [30, 0, 0, 128, 10, 0, 20, 0]"
    using c by (simp add: int16_bytes_def)
  from t h v have "\<exists>bs. b64decode (data ?p) = Some bs \<and> length bs = 2 * rows ?p * cols ?p"
    by blast
  then have "\<exists>bs. b64decode ''HgAAgAoAFAA='' = Some bs \<and> length bs = 2 * 2 * 2" by simp
  with h g d show ?thesis by blast
qed

subsection \<open>Missing values\<close>

lemma normalise_value_missing:
  assumes "(\<exists>m. missing_value = Some m \<and> feq x m) \<or> fle x (Fin (- 100))"
  shows "normalise_value missing_value x = NaN"
  using assms
  by (cases missing_value) (auto simp: normalise_value_def Let_def fle_def)

lemma detect_missing_value_declared:
  assumes "attr_missing_value var = Some m \<or>
           attr_missing_value var = None \<and> attr_FillValue var = Some m"
  shows "detect_missing_value var = Some m"
  using assms by (auto simp: detect_missing_value_def)

lemma int16_bytes_sentinel: "int16_bytes (- 32768) = [0, 128]"
  by (simp add: int16_bytes_def)

lemma nth_int16_cells:
  "k < length xs \<Longrightarrow>
     concat (map (\<lambda>x. int16_bytes (f x)) xs) ! (2 * k) = int16_bytes (f (xs ! k)) ! 0 \<and>
     concat (map (\<lambda>x. int16_bytes (f x)) xs) ! (2 * k + 1) = int16_bytes (f (xs ! k)) ! 1"
proof (induction xs arbitrary: k)
  case Nil
  then show ?case by simp
next
  case (Cons x xs)
  show ?case
  proof (cases k)
    case 0
    then show ?thesis by (simp add: int16_bytes_def)
  next
    case (Suc j)
    with Cons.prems have "j < length xs" by simp
    from Cons.IH [OF this] Suc show ?thesis by (simp add: int16_bytes_def)
  qed
qed

lemma missing_cell:
  assumes k: "k < length (ravel values)"
    and c: "(attr_missing_value var = Some m \<or>
             attr_missing_value var = None \<and> attr_FillValue var = Some m) \<and>
            feq (ravel values ! k) m \<or> fle (ravel values ! k) (Fin (- 100))"
  defines "grid \<equiv> normalise_values values (detect_missing_value var)"
  shows "ravel grid ! k = NaN"
    and "\<exists>bs. b64decode (fst (encode_values oor grid)) = Some bs \<and>
           length bs = 2 * length (ravel values) \<and> bs ! (2 * k) = 0 \<and> bs ! (2 * k + 1) = 128 \<and>
           sint (word_cat (bs ! (2 * k + 1)) (bs ! (2 * k)) :: int16) = - 32768"
proof -
  from c have "(detect_missing_value var = Some m \<and> feq (ravel values ! k) m) \<or>
      fle (ravel values ! k) (Fin (- 100))"
    using detect_missing_value_declared [of var m] by blast
  then have "(\<exists>m. detect_missing_value var = Some m \<and> feq (ravel values ! k) m) \<or>
      fle (ravel values ! k) (Fin (- 100))"
    by blast
  then have "normalise_value (detect_missing_value var) (ravel values ! k) = NaN"
    by (rule normalise_value_missing)
  with k show n: "ravel grid ! k = NaN"
    by (simp add: grid_def normalise_values_def ravel_map_array)
  let ?bs = "concat (map (\<lambda>x. int16_bytes (encode_value oor x)) (ravel grid))"
  have l: "length (ravel grid) = length (ravel values)"
    by (simp add: grid_def normalise_values_def ravel_map_array)
  with k have kg: "k < length (ravel grid)" by simp
  from nth_int16_cells [OF kg, of "encode_value oor"] n
  have b: "?bs ! (2 * k) = 0" "?bs ! (2 * k + 1) = 128"
    by (simp_all add: encode_value_nan int16_bytes_sentinel)
  have "word_cat (128 :: byte) (0 :: byte) = (- 32768 :: int16)"
    using int16_bytes_cat [of "- 32768"] by (simp add: int16_bytes_sentinel)
  then have "sint (word_cat (?bs ! (2 * k + 1)) (?bs ! (2 * k)) :: int16) = - 32768"
    unfolding b by simp
  with b l show "\<exists>bs. b64decode (fst (encode_values oor grid)) = Some bs \<and>
           length bs = 2 * length (ravel values) \<and> bs ! (2 * k) = 0 \<and> bs ! (2 * k + 1) = 128 \<and>
           sint (word_cat (bs ! (2 * k + 1)) (bs ! (2 * k)) :: int16) = - 32768"
    by (simp add: b64decode_data length_int16_cells)
qed

text \<open>
  C4. The declared attribute is \<^verbatim>\<open>missing_value\<close>, or \<^verbatim>\<open>_FillValue\<close> when the first is
  absent. In every grid, a cell that equals the declared attribute or is at most \<open>-100\<close> is
  not-a-number in the normalised grid, and in the output buffer, the bytes that the data
  string of \<open>encode_values\<close> decodes to, the two bytes of that cell are those of \<open>-32768\<close>, the
  sentinel that the descriptor declares. The same holds for the data string and the descriptor
  of a payload of \<open>process_grib\<close>, cell by cell of the values of the first data variable,
  flipped or not.
\<close>

theorem missing_value_propagation:
  "(\<forall>k < length (ravel values).
      ((attr_missing_value var = Some m \<or>
        attr_missing_value var = None \<and> attr_FillValue var = Some m) \<and>
       feq (ravel values ! k) m) \<or> fle (ravel values ! k) (Fin (- 100)) \<longrightarrow>
        ravel (normalise_values values (detect_missing_value var)) ! k = NaN \<and>
        (\<exists>bs. b64decode (fst (encode_values oor
                  (normalise_values values (detect_missing_value var)))) = Some bs \<and>
           length bs = 2 * length (ravel values) \<and> bs ! (2 * k) = 0 \<and> bs ! (2 * k + 1) = 128 \<and>
           sint (word_cat (bs ! (2 * k + 1)) (bs ! (2 * k)) :: int16) =
             missing (snd (encode_values oor
               (normalise_values values (detect_missing_value var)))))) \<and>
   missing (snd (encode_values oor values)) = - 32768 \<and>
   (process_grib oor (Inr ds) = Inr p \<and> data_vars ds = (name, var) # rest \<longrightarrow>
      missing (dataEncoding p) = - 32768 \<and>
      (\<exists>raw bs. (raw = var_values var \<or> raw = flipud (var_values var)) \<and>
         b64decode (data p) = Some bs \<and> length bs = 2 * length (ravel raw) \<and>
         (\<forall>k < length (ravel raw).
            ((attr_missing_value var = Some m \<or>
              attr_missing_value var = None \<and> attr_FillValue var = Some m) \<and>
             feq (ravel raw ! k) m) \<or> fle (ravel raw ! k) (Fin (- 100)) \<longrightarrow>
              bs ! (2 * k) = 0 \<and> bs ! (2 * k + 1) = 128 \<and>
              sint (word_cat (bs ! (2 * k + 1)) (bs ! (2 * k)) :: int16) = - 32768)))"
proof (intro conjI impI allI)
  fix k
  assume k: "k < length (ravel values)"
    and c: "((attr_missing_value var = Some m \<or>
        attr_missing_value var = None \<and> attr_FillValue var = Some m) \<and>
       feq (ravel values ! k) m) \<or> fle (ravel values ! k) (Fin (- 100))"
  from missing_cell(1) [OF k] c
  show "ravel (normalise_values values (detect_missing_value var)) ! k = NaN" by blast
  from missing_cell(2) [OF k, of var m oor] c
  show "\<exists>bs. b64decode (fst (encode_values oor
                  (normalise_values values (detect_missing_value var)))) = Some bs \<and>
           length bs = 2 * length (ravel values) \<and> bs ! (2 * k) = 0 \<and> bs ! (2 * k + 1) = 128 \<and>
           sint (word_cat (bs ! (2 * k + 1)) (bs ! (2 * k)) :: int16) =
             missing (snd (encode_values oor
               (normalise_values values (detect_missing_value var))))"
    by (simp add: encoding_fields)
next
  show "missing (snd (encode_values oor values)) = - 32768" by (rule encoding_fields)
next
  assume a: "process_grib oor (Inr ds) = Inr p \<and> data_vars ds = (name, var) # rest"
  then obtain lat0 lat raw flipped where
    o: "ensure_orientation lat0 (var_values var) = Inr (lat, raw, flipped)"
    and d: "data p = fst (encode_values oor (normalise_values raw (detect_missing_value var)))"
    and e: "dataEncoding p = snd (encode_values oor (normalise_values raw (detect_missing_value var)))"
    using process_grib_data [of oor ds p name var rest] by blast
  from e show "missing (dataEncoding p) = - 32768" by (simp add: encoding_fields)
  from o have "raw = (if flipped then flipud (var_values var) else var_values var)"
    by (rule ensure_orientation_values)
  then have r: "raw = var_values var \<or> raw = flipud (var_values var)" by (cases flipped) auto
  let ?bs = "concat (map (\<lambda>x. int16_bytes (encode_value oor x))
     (ravel (normalise_values raw (detect_missing_value var))))"
  have b: "b64decode (data p) = Some ?bs" by (simp add: d b64decode_data)
  have l: "length ?bs = 2 * length (ravel raw)"
    unfolding length_int16_cells by (simp add: normalise_values_def ravel_map_array)
  have "bs ! (2 * k) = 0 \<and> bs ! (2 * k + 1) = 128 \<and>
      sint (word_cat (bs ! (2 * k + 1)) (bs ! (2 * k)) :: int16) = - 32768"
    if "k < length (ravel raw)"
      and "((attr_missing_value var = Some m \<or>
              attr_missing_value var = None \<and> attr_FillValue var = Some m) \<and>
             feq (ravel raw ! k) m) \<or> fle (ravel raw ! k) (Fin (- 100))"
      and "bs = ?bs" for k bs
    using missing_cell(2) [OF that(1), of var m oor] that(2,3) b d by auto
  with r b l show "\<exists>raw bs. (raw = var_values var \<or> raw = flipud (var_values var)) \<and>
         b64decode (data p) = Some bs \<and> length bs = 2 * length (ravel raw) \<and>
         (\<forall>k < length (ravel raw).
            ((attr_missing_value var = Some m \<or>
              attr_missing_value var = None \<and> attr_FillValue var = Some m) \<and>
             feq (ravel raw ! k) m) \<or> fle (ravel raw ! k) (Fin (- 100)) \<longrightarrow>
              bs ! (2 * k) = 0 \<and> bs ! (2 * k + 1) = 128 \<and>
              sint (word_cat (bs ! (2 * k + 1)) (bs ! (2 * k)) :: int16) = - 32768)"
    by blast
qed

theorem missing_value_propagation_witness:
  "(3::nat) < length (ravel (Array2 2 [[Fin 1, Fin 2], [Fin 3, Fin (- 9999)]])) \<and>
   feq (ravel (Array2 2 [[Fin 1, Fin 2], [Fin 3, Fin (- 9999)]]) ! 3) (Fin (- 9999)) \<and>
   ravel (normalise_values (Array2 2 [[Fin 1, Fin 2], [Fin 3, Fin (- 9999)]])
     (detect_missing_value \<lparr>var_values = Array2 2 [[Fin 1, Fin 2], [Fin 3, Fin (- 9999)]],
        attr_missing_value = Some (Fin (- 9999)), attr_FillValue = None\<rparr>)) ! 3 = NaN \<and>
   (\<exists>bs. b64decode (fst (encode_values oor_x86_64
        (normalise_values (Array2 2 [[Fin 1, Fin 2], [Fin 3, Fin (- 9999)]])
          (detect_missing_value \<lparr>var_values = Array2 2 [[Fin 1, Fin 2], [Fin 3, Fin (- 9999)]],
             attr_missing_value = Some (Fin (- 9999)), attr_FillValue = None\<rparr>)))) = Some bs \<and>
      length bs = 8 \<and> bs ! 6 = 0 \<and> bs ! 7 = 128) \<and>
   (\<exists>bs. b64decode ''HgAAgAoAFAA='' = Some bs \<and> length bs = 8 \<and> bs ! 2 = 0 \<and> bs ! 3 = 128)"
proof -
  let ?v = "Array2 2 [[Fin 1, Fin 2], [Fin 3, Fin (- 9999)]]"
  let ?var = "\<lparr>var_values = ?v, attr_missing_value = Some (Fin (- 9999)), attr_FillValue = None\<rparr>"
  let ?ds = "\<lparr>data_vars = [(''unknown'', ?var)],
           latitude = Some (Array1 [Fin 10, Fin 20]),
           longitude = Some (True, Array1 [Fin 190, Fin 200]), time = None\<rparr>"
  let ?p = "\<lparr>rows = 2, cols = 2, bounds = [Fin 10, Fin (- 170), Fin 20, Fin (- 160)],
        latStep = Fin 10, lonStep = Fin 10, timestamp = None,
        minValue = Some (Fin 1), maxValue = Some (Fin 3), origin = ''upper-left'',
        dataEncoding = \<lparr>format = ''int16'', scale = 1 / 10, offset = 0, missing = - 32768,
          description = ''value = (raw * scale) + offset; missing indicates no data''\<rparr>,
        data = ''HgAAgAoAFAA=''\<rparr>"
  note t = missing_value_propagation
    [of ?v ?var "Fin (- 9999)" oor_x86_64 ?ds ?p "''unknown''" "[]"]
  have k: "(3::nat) < length (ravel ?v)" by simp
  have e: "feq (ravel ?v ! 3) (Fin (- 9999))" by simp
  have c: "((attr_missing_value ?var = Some (Fin (- 9999)) \<or>
        attr_missing_value ?var = None \<and> attr_FillValue ?var = Some (Fin (- 9999))) \<and>
       feq (ravel ?v ! 3) (Fin (- 9999))) \<or> fle (ravel ?v ! 3) (Fin (- 100))"
    by simp
  from t [THEN conjunct1, rule_format, OF k c]
  have 1: "ravel (normalise_values ?v (detect_missing_value ?var)) ! 3 = NaN"
    and "\<exists>bs. b64decode (fst (encode_values oor_x86_64
        (normalise_values ?v (detect_missing_value ?var)))) = Some bs \<and>
      length bs = 2 * length (ravel ?v) \<and> bs ! (2 * 3) = 0 \<and> bs ! (2 * 3 + 1) = 128 \<and>
      sint (word_cat (bs ! (2 * 3 + 1)) (bs ! (2 * 3)) :: int16) =
        missing (snd (encode_values oor_x86_64 (normalise_values ?v (detect_missing_value ?var))))"
    by blast+
  then have 2: "\<exists>bs. b64decode (fst (encode_values oor_x86_64
        (normalise_values ?v (detect_missing_value ?var)))) = Some bs \<and>
      length bs = 8 \<and> bs ! 6 = 0 \<and> bs ! 7 = 128"
    by auto
  have h: "process_grib oor_x86_64 (Inr ?ds) = Inr ?p \<and> data_vars ?ds = (''unknown'', ?var) # []"
    using scenario_a by simp
  from t [THEN conjunct2, THEN conjunct2, THEN mp, OF h]
  obtain raw bs where r: "raw = var_values ?var \<or> raw = flipud (var_values ?var)"
    and b: "b64decode (data ?p) = Some bs" and l: "length bs = 2 * length (ravel raw)"
    and a: "\<forall>k < length (ravel raw).
            ((attr_missing_value ?var = Some (Fin (- 9999)) \<or>
              attr_missing_value ?var = None \<and> attr_FillValue ?var = Some (Fin (- 9999))) \<and>
             feq (ravel raw ! k) (Fin (- 9999))) \<or> fle (ravel raw ! k) (Fin (- 100)) \<longrightarrow>
              bs ! (2 * k) = 0 \<and> bs ! (2 * k + 1) = 128 \<and>
              sint (word_cat (bs ! (2 * k + 1)) (bs ! (2 * k)) :: int16) = - 32768"
    by blast
  have d: "b64decode ''HgAAgAoAFAA='' = Some [30, 0, 0, 128, 10, 0, 20, 0]"
    by (rule scenario_a_bytes)
  with b have "bs = [30, 0, 0, 128, 10, 0, 20, 0]" by simp
  then have 3: "\<exists>bs. b64decode ''HgAAgAoAFAA='' = Some bs \<and> length bs = 8 \<and> bs ! 2 = 0 \<and> bs ! 3 = 128"
    using d by simp
  from k e 1 2 3 show ?thesis by blast
qed

subsection \<open>Failure without a data variable\<close>

text \<open>
  C8. On a decoded dataset without data variables \<open>process_grib\<close> raises the
  \<^verbatim>\<open>RuntimeError\<close> "No data variables found in GRIB file", and \<open>main\<close> prints no JSON
  document: the run ends with that exception.
\<close>

theorem no_data_variable_failure:
  "data_vars ds = [] \<longrightarrow>
     process_grib oor (Inr ds) = Inl (RuntimeError ''No data variables found in GRIB file'') \<and>
     stdout (main oor path_exists (Inr ds)) = [] \<and>
     main oor True (Inr ds) =
       \<lparr>stdout = [], ending = Uncaught (RuntimeError ''No data variables found in GRIB file'')\<rparr>"
  by (simp add: main_def process_grib_no_data_vars)

theorem no_data_variable_failure_witness:
  "data_vars \<lparr>data_vars = [], latitude = Some (Array1 [Fin 10, Fin 20]),
               longitude = Some (True, Array1 [Fin 190, Fin 200]), time = None\<rparr> = [] \<and>
   main oor_x86_64 True (Inr \<lparr>data_vars = [], latitude = Some (Array1 [Fin 10, Fin 20]),
               longitude = Some (True, Array1 [Fin 190, Fin 200]), time = None\<rparr>) =
     \<lparr>stdout = [], ending = Uncaught (RuntimeError ''No data variables found in GRIB file'')\<rparr>"
  using no_data_variable_failure
    [of "\<lparr>data_vars = [], latitude = Some (Array1 [Fin 10, Fin 20]),
               longitude = Some (True, Array1 [Fin 190, Fin 200]), time = None\<rparr>" oor_x86_64 True]
  by simp

end
